theory Spec2Isabelle
  imports Main "HOL-Library.Word"
begin

unbundle bit_operations_syntax

section \<open>The HID transport and the process environment\<close>

text \<open>
  Both programs (\<^verbatim>\<open>zwoefw-set.c\<close> for the filter wheel, and the focuser program of the
  same repository) talk to their device through hidapi and to the user through the two
  standard streams. None of that is code of the repository, so it is modelled as an
  environment: a \<open>hid_world\<close> fixes what every library call answers (the k-th
  \<^verbatim>\<open>hid_send_feature_report\<close> returns \<open>send_result w k\<close>, the k-th
  \<^verbatim>\<open>hid_get_feature_report\<close> returns \<open>fst (get_result w k)\<close> after writing the bytes
  \<open>snd (get_result w k)\<close> to the front of the caller's buffer), and a \<open>hid_state\<close>
  records what the program has done so far. Every behaviour of a device during one run is
  such a sequence of answers, so a theorem for all worlds covers all devices.

  The trace holds the most recent event first.
\<close>

type_synonym byte = "8 word"

datatype event =
    HidInit int
  | HidOpen bool
  | HidString int
  | HidClose
  | HidExit
  | Sent "byte list"
  | Got int "byte list"
  | Usleep nat
  | Stdout string "int list"
  | Stderr string "int list"

record hid_world =
  apple :: bool
  init_result :: int
  open_ok :: bool
  manufacturer_result :: int
  product_result :: int
  send_result :: "nat \<Rightarrow> int"
  get_result :: "nat \<Rightarrow> int \<times> byte list"

record hid_state =
  nsend :: nat
  nget :: nat
  trace :: "event list"

definition initial_state :: hid_state where
  "initial_state = \<lparr>nsend = 0, nget = 0, trace = []\<rparr>"

definition emit :: "event \<Rightarrow> hid_state \<Rightarrow> hid_state" where
  "emit e st = st\<lparr>trace := e # trace st\<rparr>"

text \<open>\<^verbatim>\<open>hid_send_feature_report(devh, buf, len)\<close>: \<open>buf\<close> is the \<open>len\<close> bytes handed over.\<close>

definition hid_send_feature_report :: "hid_world \<Rightarrow> hid_state \<Rightarrow> byte list \<Rightarrow> int \<times> hid_state" where
  "hid_send_feature_report w st buf =
     (send_result w (nsend st), st\<lparr>nsend := Suc (nsend st), trace := Sent buf # trace st\<rparr>)"

text \<open>
  \<^verbatim>\<open>hid_get_feature_report(devh, buf, len)\<close>: the library overwrites a prefix of the
  caller's buffer and never writes past its end; the rest of the buffer keeps what the
  caller put there.
\<close>

definition hid_get_feature_report ::
  "hid_world \<Rightarrow> hid_state \<Rightarrow> byte list \<Rightarrow> (int \<times> byte list) \<times> hid_state" where
  "hid_get_feature_report w st buf =
     (case get_result w (nget st) of (res, data) \<Rightarrow>
        let buf' = take (length buf) (data @ drop (length data) buf)
        in ((res, buf'), st\<lparr>nget := Suc (nget st), trace := Got res buf' # trace st\<rparr>))"

text \<open>The ways out of \<^verbatim>\<open>main\<close>: the labels \<^verbatim>\<open>errexit\<close> (with \<^verbatim>\<open>if (handle) hid_close(handle)\<close>)
  and \<^verbatim>\<open>errexitlast\<close>, both ending in \<^verbatim>\<open>exit(2)\<close>, and the regular end with \<^verbatim>\<open>exit(0)\<close>.
  A finished run is its exit code and its final state.\<close>

definition errexitlast :: "hid_state \<Rightarrow> int \<times> hid_state" where
  "errexitlast st = (2, st)"

definition errexit :: "bool \<Rightarrow> hid_state \<Rightarrow> int \<times> hid_state" where
  "errexit handle st = errexitlast (emit HidExit (if handle then emit HidClose st else st))"

definition exit_success :: "hid_state \<Rightarrow> int \<times> hid_state" where
  "exit_success st = (0, emit HidExit (emit HidClose st))"

subsection \<open>The C library's \<^verbatim>\<open>strtol\<close>\<close>

text \<open>
  \<^verbatim>\<open>strtol(str, NULL, 10)\<close> is the C library's, modelled after ISO C: leading white space
  is skipped, one optional sign is read, then the longest run of decimal digits; with no
  digit the value is 0; the value is clamped to the range of \<^verbatim>\<open>long\<close> (64 bits, as on
  the Linux and OS X targets the source names). A string is the characters before the
  terminating NUL.
\<close>

definition isspace :: "char \<Rightarrow> bool" where
  "isspace c = (c = CHR '' '' \<or> c = CHR 0x09 \<or> c = CHR 0x0A \<or> c = CHR 0x0B \<or> c = CHR 0x0C \<or> c = CHR 0x0D)"

definition isdigit :: "char \<Rightarrow> bool" where
  "isdigit c = (48 \<le> (of_char c :: nat) \<and> (of_char c :: nat) \<le> 57)"

fun digits_value :: "int \<Rightarrow> string \<Rightarrow> int" where
  "digits_value acc [] = acc"
| "digits_value acc (c # cs) =
     (if isdigit c then digits_value (10 * acc + (of_char c - 48)) cs else acc)"

definition LONG_MAX :: int where
  "LONG_MAX = 2 ^ 63 - 1"

definition LONG_MIN :: int where
  "LONG_MIN = - (2 ^ 63)"

definition strtol :: "string \<Rightarrow> int" where
  "strtol str =
     (let s = dropWhile isspace str;
          neg = (case s of [] \<Rightarrow> False | c # _ \<Rightarrow> c = CHR ''-'');
          s' = (case s of [] \<Rightarrow> [] | c # r \<Rightarrow> if c = CHR ''-'' \<or> c = CHR ''+'' then r else s);
          v = digits_value 0 s'
      in max LONG_MIN (min LONG_MAX (if neg then - v else v)))"

section \<open>The focuser (EAF)\<close>

subsection \<open>\<^verbatim>\<open>eaf_set_position\<close>\<close>

text \<open>The 16-byte buffer \<^verbatim>\<open>eaf_set_position\<close> fills in: \<^verbatim>\<open>memset\<close>, the ten
  assignments through \<^verbatim>\<open>buf[i++]\<close>, then \<^verbatim>\<open>buf[13]\<close>, \<^verbatim>\<open>buf[14]\<close>, \<^verbatim>\<open>buf[15]\<close>.\<close>

definition eaf_set_position_frame :: "16 word \<Rightarrow> byte list" where
  "eaf_set_position_frame pos =
     (replicate 16 0)
       [0 := 0x03, 1 := 0x7e, 2 := 0x5a, 3 := 0x03, 4 := 0x01, 5 := 0x00, 6 := 0x00, 7 := 0x00,
        8 := ucast (drop_bit 8 pos AND 0xff),
        9 := ucast (drop_bit 0 pos AND 0xff),
        13 := 0x02, 14 := 0xea, 15 := 0x60]"

definition eaf_set_position :: "hid_world \<Rightarrow> hid_state \<Rightarrow> 16 word \<Rightarrow> int \<times> hid_state" where
  "eaf_set_position w st pos =
     (case hid_send_feature_report w st (eaf_set_position_frame pos) of (res, st1) \<Rightarrow>
        if res \<noteq> 16 then (- 1, st1) else (0, st1))"

subsection \<open>\<^verbatim>\<open>eaf_get_position\<close>\<close>

text \<open>\<^verbatim>\<open>(buf[a] << 8) | buf[b]\<close> stored in a \<^verbatim>\<open>uint16_t\<close>.\<close>

definition be16 :: "byte \<Rightarrow> byte \<Rightarrow> 16 word" where
  "be16 hi lo = push_bit 8 (ucast hi) OR ucast lo"

definition eaf_get_position_request :: "byte list" where
  "eaf_get_position_request = (replicate 17 0)[0 := 0x03, 1 := 0x7e, 2 := 0x5a, 3 := 0x02, 4 := 0x03]"

definition eaf_report_unexpected :: "byte list \<Rightarrow> bool" where
  "eaf_report_unexpected buf =
     (buf ! 0 \<noteq> 0x01 \<or> buf ! 1 \<noteq> 0x7e \<or> buf ! 2 \<noteq> 0x5a \<or> buf ! 3 \<noteq> 0x03 \<or>
      buf ! 5 \<noteq> 0x00 \<or> buf ! 6 \<noteq> 0x00 \<or> buf ! 7 \<noteq> 0x00 \<or> buf ! 10 \<noteq> 0x00 \<or>
      buf ! 14 \<noteq> 0xea \<or> buf ! 15 \<noteq> 0x60)"

text \<open>
  The out-parameters \<^verbatim>\<open>posret\<close> and \<^verbatim>\<open>posmaxret\<close> are pointers: \<open>None\<close> is \<^verbatim>\<open>NULL\<close>,
  \<open>Some v\<close> a cell holding \<open>v\<close>; the function returns its result code and the two cells
  as it leaves them.
\<close>

definition eaf_get_position ::
  "hid_world \<Rightarrow> hid_state \<Rightarrow> 16 word option \<Rightarrow> 16 word option
     \<Rightarrow> int \<times> 16 word option \<times> 16 word option \<times> hid_state" where
  "eaf_get_position w st posret posmaxret =
     (if posret = None then (- 1, posret, posmaxret, st)
      else
        case hid_send_feature_report w st (take 16 eaf_get_position_request) of (res, st1) \<Rightarrow>
        if res \<noteq> 16 then (- 1, posret, posmaxret, st1)
        else
          case hid_get_feature_report w st1 ((replicate 17 0)[0 := 0x01]) of ((res2, buf), st2) \<Rightarrow>
          if res2 \<noteq> 16 then (- 1, posret, posmaxret, st2)
          else
            let st3 = (if eaf_report_unexpected buf
                       then emit (Stderr ''unexpected values in position report: '' (map uint (take 16 buf))) st2
                       else st2);
                status = buf ! 4;
                position = be16 (buf ! 8) (buf ! 9);
                status2 = buf ! 11;
                status3 = buf ! 12;
                st4 = emit (Stdout ''position report: status=%d, status2=0x%02x, status3=0x%02x, position=%d''
                              [uint status, uint status2, uint status3, uint position]) st3;
                posret' = Some position;
                posmaxret' = (if posmaxret \<noteq> None then Some (be16 (buf ! 14) (buf ! 15)) else posmaxret)
            in if status \<noteq> 0 then (1, posret', posmaxret', st4) else (0, posret', posmaxret', st4))"

subsection \<open>The focuser's \<^verbatim>\<open>main\<close>\<close>

text \<open>
  The first loop of \<^verbatim>\<open>main\<close>, \<^verbatim>\<open>for (;;)\<close> around \<^verbatim>\<open>eaf_get_position(handle, &pos, &posmax)\<close>.
  It has no bound in the source; the model counts the polls it may still make and is
  \<open>None\<close> when they run out. \<open>Inl\<close> is the jump to \<^verbatim>\<open>errexit\<close>, \<open>Inr\<close> the \<^verbatim>\<open>break\<close>.
\<close>

fun eaf_await ::
  "nat \<Rightarrow> hid_world \<Rightarrow> hid_state \<Rightarrow> 16 word \<Rightarrow> 16 word
     \<Rightarrow> (hid_state + 16 word \<times> 16 word \<times> hid_state) option" where
  "eaf_await 0 w st pos posmax = None"
| "eaf_await (Suc n) w st pos posmax =
     (case eaf_get_position w st (Some pos) (Some posmax) of (res, posret, posmaxret, st1) \<Rightarrow>
        let pos1 = (case posret of Some p \<Rightarrow> p | None \<Rightarrow> pos);
            posmax1 = (case posmaxret of Some p \<Rightarrow> p | None \<Rightarrow> posmax)
        in if res = - 1
           then Some (Inl (emit (Stderr ''unrecoverable error, needs physical reset'' []) st1))
           else if res = 0 then Some (Inr (pos1, posmax1, st1))
           else eaf_await n w (emit (Usleep 500000) st1) pos1 posmax1)"

text \<open>\<^verbatim>\<open>targetpos = pos + (targetpos * (*targetrelsign == '-' ? -1 : 1))\<close> under
  \<^verbatim>\<open>if (targetrel)\<close>, in \<^verbatim>\<open>long\<close> arithmetic (both operands are below \<open>2 ^ 16\<close>).\<close>

definition eaf_resolve :: "16 word \<Rightarrow> bool \<Rightarrow> string option \<Rightarrow> int \<Rightarrow> int" where
  "eaf_resolve pos targetrel targetrelsign targetpos =
     (if targetrel
      then uint pos +
           targetpos * (if (case targetrelsign of Some (c # _) \<Rightarrow> c = CHR ''-'' | _ \<Rightarrow> False)
                        then - 1 else 1)
      else targetpos)"

text \<open>The loop \<^verbatim>\<open>while (pos != targetpos)\<close> after the set-position command, unbounded in
  the source as well.\<close>

fun eaf_track ::
  "nat \<Rightarrow> hid_world \<Rightarrow> hid_state \<Rightarrow> 16 word \<Rightarrow> int \<Rightarrow> (hid_state + 16 word \<times> hid_state) option" where
  "eaf_track 0 w st pos targetpos =
     (if uint pos \<noteq> targetpos then None else Some (Inr (pos, st)))"
| "eaf_track (Suc n) w st pos targetpos =
     (if uint pos \<noteq> targetpos then
        (case eaf_get_position w st (Some pos) None of (res, posret, posmaxret, st1) \<Rightarrow>
           let pos1 = (case posret of Some p \<Rightarrow> p | None \<Rightarrow> pos)
           in if res = - 1
              then Some (Inl (emit (Stderr ''unrecoverable error, needs physical reset'' []) st1))
              else
                let st2 = emit (Stdout ''current pos = %d (target %ld)'' [uint pos1, targetpos]) st1
                in if res = 0 \<and> uint pos1 = targetpos then Some (Inr (pos1, st2))
                   else eaf_track n w (emit (Usleep 500000) st2) pos1 targetpos)
      else Some (Inr (pos, st)))"

text \<open>\<^verbatim>\<open>main\<close> from \<^verbatim>\<open>if (targetpos != -1)\<close> to its end.\<close>

definition eaf_request ::
  "nat \<Rightarrow> hid_world \<Rightarrow> hid_state \<Rightarrow> 16 word \<Rightarrow> 16 word \<Rightarrow> int \<Rightarrow> bool \<Rightarrow> string option
     \<Rightarrow> (int \<times> hid_state) option" where
  "eaf_request fuel w st pos posmax targetpos targetrel targetrelsign =
     (if targetpos \<noteq> - 1 then
        let targetpos' = eaf_resolve pos targetrel targetrelsign targetpos;
            st1 = emit (Stderr ''requesting target %ld'' [targetpos']) st
        in if targetpos' < 0 \<or> targetpos' > uint posmax
           then Some (errexit True (emit (Stderr ''invalid target %ld'' [targetpos']) st1))
           else
             (case eaf_set_position w st1 (word_of_int targetpos') of (res, st2) \<Rightarrow>
                if res \<noteq> 0 then Some (errexit True st2)
                else
                  (case eaf_track fuel w st2 pos targetpos' of
                     None \<Rightarrow> None
                   | Some (Inl st3) \<Rightarrow> Some (errexit True st3)
                   | Some (Inr (pos', st3)) \<Rightarrow> Some (exit_success st3)))
      else Some (exit_success st))"

text \<open>\<^verbatim>\<open>main\<close>: \<open>args\<close> is \<^verbatim>\<open>argv\<close> after the program's name, so \<^verbatim>\<open>argc > 1\<close> is
  \<open>args \<noteq> []\<close> and \<^verbatim>\<open>argv[1]\<close> its head. \<^verbatim>\<open>str[0]\<close> of an empty string is the NUL.\<close>

definition eaf_targetrel :: "string list \<Rightarrow> bool" where
  "eaf_targetrel args =
     (case args of [] \<Rightarrow> False
      | str # _ \<Rightarrow> (case str of [] \<Rightarrow> False | c # _ \<Rightarrow> c = CHR ''-'' \<or> c = CHR ''+''))"

definition eaf_targetpos :: "string list \<Rightarrow> int" where
  "eaf_targetpos args =
     (case args of [] \<Rightarrow> - 1
      | str # _ \<Rightarrow> strtol (if eaf_targetrel args then tl str else str))"

definition eaf_main :: "nat \<Rightarrow> hid_world \<Rightarrow> string list \<Rightarrow> (int \<times> hid_state) option" where
  "eaf_main fuel w args =
     (let targetrel = eaf_targetrel args;
          targetrelsign = (if targetrel then Some (hd args) else None);
          targetpos = eaf_targetpos args
      in if args \<noteq> [] \<and> (targetpos < 0 \<or> targetpos > 0xffff)
         then Some (errexitlast (emit (Stderr ''invalid position requested'' []) initial_state))
         else
           let st1 = emit (HidInit (init_result w)) initial_state
           in if init_result w \<noteq> 0
              then Some (errexitlast (emit (Stderr ''hid_init failed'' []) st1))
              else
                let st2 = emit (HidOpen (open_ok w)) st1
                in if \<not> open_ok w
                   then Some (errexit False (emit (Stderr ''unable to open device'' []) st2))
                   else
                     (case eaf_await fuel w st2 0 0 of
                        None \<Rightarrow> None
                      | Some (Inl st3) \<Rightarrow> Some (errexit True st3)
                      | Some (Inr (pos, posmax, st3)) \<Rightarrow>
                          eaf_request fuel w
                            (emit (Stdout ''current pos = %d (max %d)'' [uint pos, uint posmax]) st3)
                            pos posmax targetpos targetrel targetrelsign))"

section \<open>The filter wheel (EFW)\<close>

subsection \<open>\<^verbatim>\<open>efw_get_info\<close>\<close>

definition efw_get_info_request :: "byte list" where
  "efw_get_info_request = (replicate 17 0)[0 := 0x03, 1 := 0x7e, 2 := 0x5a, 3 := 0x02, 4 := 0x04]"

definition efw_info_expected :: "byte list" where
  "efw_info_expected =
     [0x01, 0x7e, 0x5a, 0x04, 0x03, 0x00, 0x09, 0x00,
      0x45, 0x46, 0x57, 0x2d, 0x53, 0x2d, 0x30, 0x00]"

definition efw_get_info :: "hid_world \<Rightarrow> hid_state \<Rightarrow> int \<times> hid_state" where
  "efw_get_info w st =
     (case hid_send_feature_report w st (take 16 efw_get_info_request) of (res, st1) \<Rightarrow>
      if res \<noteq> 16 then (- 1, st1)
      else
        case hid_get_feature_report w st1 ((replicate 17 0)[0 := 0x01]) of ((res2, buf), st2) \<Rightarrow>
        if res2 \<noteq> 16 then (- 1, st2)
        else
          (0, if take 16 buf \<noteq> efw_info_expected
              then emit (Stderr ''unexpected values in info report: '' (map uint (take 16 buf))) st2
              else st2))"

subsection \<open>\<^verbatim>\<open>efw_set_position\<close>\<close>

definition efw_set_position_frame :: "byte \<Rightarrow> byte list" where
  "efw_set_position_frame slot =
     (replicate 16 0)[0 := 0x03, 1 := 0x7e, 2 := 0x5a, 3 := 0x01, 4 := 0x02, 5 := slot]"

definition efw_set_position :: "hid_world \<Rightarrow> hid_state \<Rightarrow> byte \<Rightarrow> int \<times> hid_state" where
  "efw_set_position w st slot =
     (if slot < 1 \<or> slot > 7 then (- 1, st)
      else
        case hid_send_feature_report w st (efw_set_position_frame slot) of (res, st1) \<Rightarrow>
        if res \<noteq> 16 then (- 1, st1) else (0, st1))"

subsection \<open>\<^verbatim>\<open>efw_get_position\<close>\<close>

definition efw_get_position_request :: "byte list" where
  "efw_get_position_request = (replicate 17 0)[0 := 0x03, 1 := 0x7e, 2 := 0x5a, 3 := 0x02, 4 := 0x01]"

definition efw_report_unexpected :: "byte list \<Rightarrow> bool" where
  "efw_report_unexpected buf =
     (buf ! 0 \<noteq> 0x01 \<or> buf ! 1 \<noteq> 0x7e \<or> buf ! 2 \<noteq> 0x5a \<or> buf ! 3 \<noteq> 0x01 \<or>
      buf ! 10 \<noteq> 0x00 \<or> buf ! 11 \<noteq> 0x00 \<or> buf ! 12 \<noteq> 0x00 \<or> buf ! 13 \<noteq> 0x00 \<or>
      buf ! 14 \<noteq> 0x30 \<or> buf ! 15 \<noteq> 0x00)"

text \<open>The out-parameter \<^verbatim>\<open>slotret\<close> is a pointer, modelled as for the focuser. The result
  code is \<open>0\<close> (settled, the cell written), \<open>- 1\<close> (transport failure or a wheel that
  needs a hard reset) or \<open>1\<close> (the caller should wait it out).\<close>

definition efw_get_position ::
  "hid_world \<Rightarrow> hid_state \<Rightarrow> byte option \<Rightarrow> int \<times> byte option \<times> hid_state" where
  "efw_get_position w st slotret =
     (if slotret = None then (- 1, slotret, st)
      else
        case hid_send_feature_report w st (take 16 efw_get_position_request) of (res, st1) \<Rightarrow>
        if res \<noteq> 16 then (- 1, slotret, st1)
        else
          case hid_get_feature_report w st1 ((replicate 17 0)[0 := 0x01]) of ((res2, buf), st2) \<Rightarrow>
          if res2 \<noteq> 16 then (- 1, slotret, st2)
          else
            let st3 = (if efw_report_unexpected buf
                       then emit (Stderr ''unexpected values in position report: '' (map uint (take 16 buf))) st2
                       else st2);
                status = buf ! 4;
                errcode = buf ! 5;
                slot_current = buf ! 6;
                slot_max = buf ! 9;
                st4 = emit (Stdout ''position report: status=%d, [%d, %d, %d], max=%d''
                              [uint status, uint (buf ! 6), uint (buf ! 7), uint (buf ! 8), uint slot_max]) st3
            in if buf ! 6 = buf ! 7 \<and> buf ! 7 = buf ! 8 \<and> status = 1 then (0, Some slot_current, st4)
               else if status = 6 \<or> errcode \<noteq> 0 then (- 1, slotret, st4)
               else (1, slotret, st4))"

subsection \<open>The filter wheel's \<^verbatim>\<open>main\<close>\<close>

text \<open>\<^verbatim>\<open>uint8_t nextslot = ((slot - 1 + 1) % 7) + 1\<close>: \<^verbatim>\<open>slot\<close> is promoted to \<^verbatim>\<open>int\<close>, the
  dividend is never negative (so C's truncating \<^verbatim>\<open>%\<close> is \<open>mod\<close>), and the result is
  stored in a byte.\<close>

definition efw_nextslot :: "byte \<Rightarrow> byte" where
  "efw_nextslot slot = word_of_int (((uint slot - 1 + 1) mod 7) + 1)"

text \<open>The first loop, \<^verbatim>\<open>for (;;)\<close> around \<^verbatim>\<open>efw_get_position(handle, &slot)\<close>, unbounded in
  the source.\<close>

fun efw_await ::
  "nat \<Rightarrow> hid_world \<Rightarrow> hid_state \<Rightarrow> byte \<Rightarrow> (hid_state + byte \<times> hid_state) option" where
  "efw_await 0 w st slot = None"
| "efw_await (Suc n) w st slot =
     (case efw_get_position w st (Some slot) of (res, slotret, st1) \<Rightarrow>
        let slot1 = (case slotret of Some s \<Rightarrow> s | None \<Rightarrow> slot)
        in if res = - 1
           then Some (Inl (emit (Stderr ''unrecoverable wheel error, needs physical reset'' []) st1))
           else if res = 0 then Some (Inr (slot1, st1))
           else efw_await n w (emit (Usleep 500000) st1) slot1)"

text \<open>The inner loop \<^verbatim>\<open>for (i = 0; i < 100; i++)\<close>. \<open>Inl\<close> is the jump to \<^verbatim>\<open>errexit\<close>;
  \<open>Inr (i, slot, st)\<close> is the loop left with these values of \<^verbatim>\<open>i\<close> and \<^verbatim>\<open>slot\<close>, after
  the \<^verbatim>\<open>break\<close> (\<open>i < 100\<close>) or once the condition \<^verbatim>\<open>i < 100\<close> fails (\<open>i = 100\<close>).\<close>

function efw_step_poll ::
  "nat \<Rightarrow> hid_world \<Rightarrow> hid_state \<Rightarrow> byte \<Rightarrow> byte \<Rightarrow> hid_state + nat \<times> byte \<times> hid_state" where
  "efw_step_poll i w st slot nextslot =
     (if i < 100 then
        (case efw_get_position w st (Some slot) of (res, slotret, st1) \<Rightarrow>
           let slot1 = (case slotret of Some s \<Rightarrow> s | None \<Rightarrow> slot)
           in if res = - 1
              then Inl (emit (Stderr ''unrecoverable wheel error, needs physical reset'' []) st1)
              else if res = 0 \<and> slot1 = nextslot then Inr (i, slot1, st1)
              else efw_step_poll (Suc i) w (emit (Usleep 500000) st1) slot1 nextslot)
      else Inr (i, slot, st))"
  by pat_completeness auto
termination
  by (relation "measure (\<lambda>(i, w, st, slot, nextslot). 100 - i)") auto

declare efw_step_poll.simps [simp del]

text \<open>The outer loop \<^verbatim>\<open>while (slot != targetslot)\<close>; nothing in the source bounds the
  number of its rounds.\<close>

fun efw_move ::
  "nat \<Rightarrow> hid_world \<Rightarrow> hid_state \<Rightarrow> byte \<Rightarrow> byte \<Rightarrow> (hid_state + byte \<times> hid_state) option" where
  "efw_move 0 w st slot targetslot =
     (if slot \<noteq> targetslot then None else Some (Inr (slot, st)))"
| "efw_move (Suc n) w st slot targetslot =
     (if slot \<noteq> targetslot then
        let nextslot = efw_nextslot slot;
            st1 = emit (Stdout ''request slot %d'' [uint nextslot]) st
        in (case efw_set_position w st1 nextslot of (res, st2) \<Rightarrow>
              if res \<noteq> 0 then Some (Inl st2)
              else
                (case efw_step_poll 0 w st2 slot nextslot of
                   Inl st3 \<Rightarrow> Some (Inl st3)
                 | Inr (i, slot1, st3) \<Rightarrow>
                     efw_move n w (emit (Stdout ''current slot = %d'' [uint slot1]) st3) slot1 targetslot))
      else Some (Inr (slot, st)))"

text \<open>\<^verbatim>\<open>main\<close> once the device is open: the two string queries (compiled in unless
  \<^verbatim>\<open>__APPLE__\<close> is defined), \<^verbatim>\<open>efw_get_info\<close>, the first loop, the move loop and the end.
  \<open>slot0\<close> is whatever the uninitialised local \<^verbatim>\<open>slot\<close> holds; it is overwritten before
  it is read.\<close>

definition efw_opened ::
  "nat \<Rightarrow> hid_world \<Rightarrow> hid_state \<Rightarrow> byte \<Rightarrow> byte \<Rightarrow> (int \<times> hid_state) option" where
  "efw_opened fuel w st slot0 targetslot =
     (let st1 = (if apple w then st else emit (HidString (manufacturer_result w)) st)
      in if \<not> apple w \<and> manufacturer_result w \<noteq> 0 then Some (errexit True st1)
         else
           let st2 = (if apple w then st1
                      else emit (HidString (product_result w)) (emit (Stdout ''Manufacturer String: %ls'' []) st1))
           in if \<not> apple w \<and> product_result w \<noteq> 0 then Some (errexit True st2)
              else
                let st3 = (if apple w then st2 else emit (Stdout ''Product String: %ls'' []) st2)
                in (case efw_get_info w st3 of (res, st4) \<Rightarrow>
                      if res \<noteq> 0 then Some (errexit True st4)
                      else
                        (case efw_await fuel w st4 slot0 of
                           None \<Rightarrow> None
                         | Some (Inl st5) \<Rightarrow> Some (errexit True st5)
                         | Some (Inr (slot, st5)) \<Rightarrow>
                             (let targetslot' = (if targetslot = 0 then slot else targetslot)
                              in (case efw_move fuel w st5 slot targetslot' of
                                    None \<Rightarrow> None
                                  | Some (Inl st6) \<Rightarrow> Some (errexit True st6)
                                  | Some (Inr (slot', st6)) \<Rightarrow>
                                      Some (exit_success (emit (Stdout ''final slot = %d'' [uint slot']) st6)))))))"

definition efw_main :: "nat \<Rightarrow> hid_world \<Rightarrow> byte \<Rightarrow> string list \<Rightarrow> (int \<times> hid_state) option" where
  "efw_main fuel w slot0 args =
     (let argint = (case args of [] \<Rightarrow> 0 | str # _ \<Rightarrow> strtol str)
      in if args \<noteq> [] \<and> (argint < 1 \<or> argint > 7)
         then Some (errexitlast (emit (Stderr ''invalid filter slot requested'' []) initial_state))
         else
           let targetslot = (if args \<noteq> [] then word_of_int argint else 0);
               st1 = emit (HidInit (init_result w)) initial_state
           in if init_result w \<noteq> 0
              then Some (errexitlast (emit (Stderr ''hid_init failed'' []) st1))
              else
                let st2 = emit (HidOpen (open_ok w)) st1
                in if \<not> open_ok w
                   then Some (errexit False (emit (Stderr ''unable to open device'' []) st2))
                   else efw_opened fuel w st2 slot0 targetslot)"

section \<open>Observations on a run\<close>

text \<open>The buffer \<^verbatim>\<open>buf\<close> of the two \<^verbatim>\<open>get_position\<close> functions after the k-th
  \<^verbatim>\<open>hid_get_feature_report\<close> of a run: 17 bytes, zeroed, \<^verbatim>\<open>buf[0] = 0x01\<close>, then
  overwritten by the library.\<close>

definition hid_response :: "hid_world \<Rightarrow> nat \<Rightarrow> byte list" where
  "hid_response w k =
     take 17 (snd (get_result w k) @ drop (length (snd (get_result w k))) ((replicate 17 0)[0 := 0x01]))"

text \<open>The frames handed to \<^verbatim>\<open>hid_send_feature_report\<close>, oldest first.\<close>

fun sent_frames :: "event list \<Rightarrow> byte list list" where
  "sent_frames [] = []"
| "sent_frames (Sent f # es) = sent_frames es @ [f]"
| "sent_frames (e # es) = sent_frames es"

text \<open>A frame is a set-position command by its command and subcommand bytes
  (\<open>0x01 0x02\<close> for the wheel, \<open>0x03 0x01\<close> for the focuser).\<close>

definition is_efw_set_position :: "byte list \<Rightarrow> bool" where
  "is_efw_set_position f = (take 5 f = [0x03, 0x7e, 0x5a, 0x01, 0x02])"

definition is_eaf_set_position :: "byte list \<Rightarrow> bool" where
  "is_eaf_set_position f = (take 5 f = [0x03, 0x7e, 0x5a, 0x03, 0x01])"

text \<open>The slots the wheel was commanded to, oldest first, and the focuser's set-position
  frames.\<close>

definition efw_commanded :: "event list \<Rightarrow> byte list" where
  "efw_commanded tr = map (\<lambda>f. f ! 5) (filter is_efw_set_position (sent_frames tr))"

definition eaf_commanded :: "event list \<Rightarrow> byte list list" where
  "eaf_commanded tr = filter is_eaf_set_position (sent_frames tr)"

text \<open>The events on the device handle: \<^verbatim>\<open>hid_open\<close> and \<^verbatim>\<open>hid_close\<close>.\<close>

fun is_handle_event :: "event \<Rightarrow> bool" where
  "is_handle_event (HidOpen b) = True"
| "is_handle_event HidClose = True"
| "is_handle_event e = False"

definition handle_events :: "event list \<Rightarrow> event list" where
  "handle_events tr = filter is_handle_event tr"

text \<open>The settle condition of a wheel position report, and the monitor of the stepping
  policy over the events of the move loop (most recent first): \<open>last_settled s es\<close> is the
  slot of the latest settled report in \<open>es\<close>, or \<open>s\<close> when there is none, and
  \<open>single_steps s es\<close> says that every set-position command in \<open>es\<close> names the slot after
  the one last settled before it.\<close>

definition efw_settled :: "byte list \<Rightarrow> bool" where
  "efw_settled buf = (buf ! 6 = buf ! 7 \<and> buf ! 7 = buf ! 8 \<and> buf ! 4 = 1)"

fun last_settled :: "byte \<Rightarrow> event list \<Rightarrow> byte" where
  "last_settled s [] = s"
| "last_settled s (Got res buf # es) =
     (if res = 16 \<and> efw_settled buf then buf ! 6 else last_settled s es)"
| "last_settled s (e # es) = last_settled s es"

fun single_steps :: "byte \<Rightarrow> event list \<Rightarrow> bool" where
  "single_steps s [] = True"
| "single_steps s (Sent f # es) =
     ((if is_efw_set_position f then f ! 5 = efw_nextslot (last_settled s es) else True)
      \<and> single_steps s es)"
| "single_steps s (e # es) = single_steps s es"

text \<open>A trace \<open>tr\<close> that extends \<open>base\<close> by events that keep to the stepping policy and
  leave \<open>slot\<close> as the slot last settled.\<close>

definition stepping :: "byte \<Rightarrow> event list \<Rightarrow> event list \<Rightarrow> byte \<Rightarrow> bool" where
  "stepping s base tr slot =
     (\<exists>evs. tr = evs @ base \<and> single_steps s evs \<and> last_settled s evs = slot)"

text \<open>The state in which a loop was left, whichever way.\<close>

fun left_in :: "hid_state + 'a \<times> hid_state \<Rightarrow> hid_state" where
  "left_in (Inl st) = st"
| "left_in (Inr (x, st)) = st"

fun polled_in :: "hid_state + nat \<times> byte \<times> hid_state \<Rightarrow> hid_state" where
  "polled_in (Inl st) = st"
| "polled_in (Inr (i, slot, st)) = st"



text \<open>What is read off a finished run.\<close>

definition exit_code :: "(int \<times> hid_state) option \<Rightarrow> int option" where
  "exit_code r = map_option fst r"

definition final_trace :: "(int \<times> hid_state) option \<Rightarrow> event list" where
  "final_trace r = (case r of None \<Rightarrow> [] | Some (c, st) \<Rightarrow> trace st)"

definition polls :: "(int \<times> hid_state) option \<Rightarrow> nat" where
  "polls r = (case r of None \<Rightarrow> 0 | Some (c, st) \<Rightarrow> nget st)"

text \<open>What is read off a move loop that was left: its trace, and the slot it ended on when
  it ended regularly.\<close>

definition move_trace :: "(hid_state + byte \<times> hid_state) option \<Rightarrow> event list" where
  "move_trace r = (case r of None \<Rightarrow> [] | Some x \<Rightarrow> trace (left_in x))"

definition move_slot :: "(hid_state + byte \<times> hid_state) option \<Rightarrow> byte option" where
  "move_slot r = (case r of Some (Inr (slot, st)) \<Rightarrow> Some slot | _ \<Rightarrow> None)"

section \<open>Devices for the examples\<close>

text \<open>A wheel position report with the given status, error code and consistency bytes, the
  constant bytes as in the source's examples; and a focuser position report.\<close>

definition efw_report :: "byte \<Rightarrow> byte \<Rightarrow> byte \<Rightarrow> byte \<Rightarrow> byte \<Rightarrow> byte list" where
  "efw_report status errcode a b c =
     [0x01, 0x7e, 0x5a, 0x01, status, errcode, a, b, c, 0x07, 0x00, 0x00, 0x00, 0x00, 0x30, 0x00, 0x00]"

definition eaf_report :: "byte \<Rightarrow> byte \<Rightarrow> byte \<Rightarrow> byte list" where
  "eaf_report status hi lo =
     [0x01, 0x7e, 0x5a, 0x03, status, 0x00, 0x00, 0x00, hi, lo, 0x00, 0x7f, 0x7e, 0x32, 0xea, 0x60, 0x00]"

definition device :: "(nat \<Rightarrow> int \<times> byte list) \<Rightarrow> hid_world" where
  "device answers =
     \<lparr>apple = False, init_result = 0, open_ok = True, manufacturer_result = 0,
      product_result = 0, send_result = (\<lambda>k. 16), get_result = answers\<rparr>"

text \<open>A wheel that always answers with the same position report.\<close>

definition steady_wheel :: "byte \<Rightarrow> byte \<Rightarrow> byte \<Rightarrow> byte \<Rightarrow> byte \<Rightarrow> hid_world" where
  "steady_wheel status errcode a b c = device (\<lambda>k. (16, efw_report status errcode a b c))"



text \<open>A wheel settled at slot 3 that has settled at the commanded slot by the first poll
  after each command.\<close>

definition prompt_wheel :: hid_world where
  "prompt_wheel =
     device (\<lambda>k. if k = 0 then (16, efw_info_expected @ [0x00])
                 else (16, efw_report 1 0 (of_nat k + 2) (of_nat k + 2) (of_nat k + 2)))"

text \<open>The same wheel from the first poll of the move loop on: settled at slot 4, then 5,
  then 6 and so on.\<close>

definition stepping_wheel :: hid_world where
  "stepping_wheel =
     device (\<lambda>k. (16, efw_report 1 0 (of_nat k + 4) (of_nat k + 4) (of_nat k + 4)))"

text \<open>A wheel whose transport fails on every send.\<close>

definition dead_wheel :: hid_world where
  "dead_wheel = (device (\<lambda>k. (16, efw_report 1 0 3 3 3)))\<lparr>send_result := (\<lambda>k. - 1)\<rparr>"

text \<open>A device that cannot be opened.\<close>

definition absent_device :: hid_world where
  "absent_device = (device (\<lambda>k. (- 1, [])))\<lparr>open_ok := False\<rparr>"

text \<open>A focuser that always answers with the same position report.\<close>

definition steady_focuser :: "byte \<Rightarrow> byte \<Rightarrow> byte \<Rightarrow> hid_world" where
  "steady_focuser status hi lo = device (\<lambda>k. (16, eaf_report status hi lo))"

text \<open>A focuser whose transport fails on every send, and one that takes every command but
  fails every read.\<close>

definition deaf_focuser :: hid_world where
  "deaf_focuser = (device (\<lambda>k. (16, eaf_report 0 0 0)))\<lparr>send_result := (\<lambda>k. - 1)\<rparr>"

definition mute_focuser :: hid_world where
  "mute_focuser = device (\<lambda>k. (- 1, []))"


section \<open>Bytes and words\<close>

lemma and_0xff: "(w :: 'a::len word) AND 0xff = take_bit 8 w"
proof -
  have "(mask 8 :: 'a word) = 0xff"
    by (simp add: mask_eq_exp_minus_1)
  then show ?thesis
    by (simp add: take_bit_eq_mask)
qed

lemma uint_high_byte:
  assumes "0 \<le> p" and "p \<le> 65535"
  shows "uint (ucast (drop_bit 8 (word_of_int p :: 16 word) AND 0xff) :: byte) = p div 256"
  using assms
  by (simp add: and_0xff uint_word_of_int unsigned_ucast_eq unsigned_drop_bit_eq drop_bit_eq_div
      take_bit_eq_mod unsigned_take_bit_eq uint_div uint_mod)

lemma uint_low_byte:
  assumes "0 \<le> p" and "p \<le> 65535"
  shows "uint (ucast (drop_bit 0 (word_of_int p :: 16 word) AND 0xff) :: byte) = p mod 256"
  using assms
  by (simp add: and_0xff uint_word_of_int unsigned_ucast_eq take_bit_eq_mod unsigned_take_bit_eq
      uint_div uint_mod)

lemma be16_or_add:
  "push_bit 8 (ucast (a :: byte)) OR (ucast (b :: byte) :: 16 word) = push_bit 8 (ucast a) + ucast b"
  by (rule disjunctive_add [symmetric]) (auto simp: bit_simps dest: bit_imp_le_length)

lemma unat_be16: "unat (be16 a b) = 256 * unat a + unat b"
proof -
  have a: "unat a < 256" using unsigned_less [of a, where ?'a = nat] by simp
  have b: "unat b < 256" using unsigned_less [of b, where ?'a = nat] by simp
  have "unat (push_bit 8 (ucast a) + ucast b :: 16 word)
          = (unat (push_bit 8 (ucast a) :: 16 word) + unat (ucast b :: 16 word)) mod 65536"
    by (simp add: unat_word_ariths)
  moreover have "unat (ucast b :: 16 word) = unat b"
    using b by (simp add: unsigned_ucast_eq take_bit_nat_eq_self)
  moreover have "unat (push_bit 8 (ucast a) :: 16 word) = 256 * unat a"
    using a by (simp add: push_bit_eq_mult unat_word_ariths unsigned_ucast_eq take_bit_nat_eq_self)
  ultimately show ?thesis
    using a b by (simp add: be16_def be16_or_add)
qed

lemma uint_be16: "uint (be16 a b) = 256 * uint a + uint b"
  unfolding uint_nat unat_be16 by simp

section \<open>The frames\<close>

lemma eaf_set_position_frame_bytes:
  "eaf_set_position_frame pos =
     [0x03, 0x7e, 0x5a, 0x03, 0x01, 0x00, 0x00, 0x00,
      ucast (drop_bit 8 pos AND 0xff), ucast (drop_bit 0 pos AND 0xff),
      0x00, 0x00, 0x00, 0x02, 0xea, 0x60]"
  by (simp add: eaf_set_position_frame_def numeral_eq_Suc)

lemma efw_set_position_frame_bytes:
  "efw_set_position_frame slot =
     [0x03, 0x7e, 0x5a, 0x01, 0x02, slot, 0x00, 0x00, 0x00, 0x00, 0x00, 0x00, 0x00, 0x00, 0x00, 0x00]"
  by (simp add: efw_set_position_frame_def numeral_eq_Suc)

lemma eaf_get_position_request_bytes:
  "take 16 eaf_get_position_request =
     [0x03, 0x7e, 0x5a, 0x02, 0x03, 0x00, 0x00, 0x00, 0x00, 0x00, 0x00, 0x00, 0x00, 0x00, 0x00, 0x00]"
  by (simp add: eaf_get_position_request_def numeral_eq_Suc)

lemma efw_get_position_request_bytes:
  "take 16 efw_get_position_request =
     [0x03, 0x7e, 0x5a, 0x02, 0x01, 0x00, 0x00, 0x00, 0x00, 0x00, 0x00, 0x00, 0x00, 0x00, 0x00, 0x00]"
  by (simp add: efw_get_position_request_def numeral_eq_Suc)

lemma efw_get_info_request_bytes:
  "take 16 efw_get_info_request =
     [0x03, 0x7e, 0x5a, 0x02, 0x04, 0x00, 0x00, 0x00, 0x00, 0x00, 0x00, 0x00, 0x00, 0x00, 0x00, 0x00]"
  by (simp add: efw_get_info_request_def numeral_eq_Suc)

text \<open>
  C4. For every \<open>pos\<close> in \<open>[0, 65535]\<close> the focuser's set-position encoder builds the
  16-byte frame \<open>03 7e 5a 03 01 00 00 00 hi lo 00 00 00 02 ea 60\<close>, where \<open>hi\<close>, \<open>lo\<close> are
  the big-endian bytes of \<open>pos\<close> (bytes 8 and 9), and this is the frame handed to the
  transport.
\<close>

theorem eaf_set_position_frame_layout:
  assumes "0 \<le> p" and "p \<le> 65535"
  shows "eaf_set_position_frame (word_of_int p) =
           [0x03, 0x7e, 0x5a, 0x03, 0x01, 0x00, 0x00, 0x00,
            word_of_int (p div 256), word_of_int (p mod 256),
            0x00, 0x00, 0x00, 0x02, 0xea, 0x60]
         \<and> uint (eaf_set_position_frame (word_of_int p) ! 8) = p div 256
         \<and> uint (eaf_set_position_frame (word_of_int p) ! 9) = p mod 256
         \<and> trace (snd (eaf_set_position w st (word_of_int p))) =
             Sent (eaf_set_position_frame (word_of_int p)) # trace st"
proof -
  let ?hi = "ucast (drop_bit 8 (word_of_int p :: 16 word) AND 0xff) :: byte"
  let ?lo = "ucast (drop_bit 0 (word_of_int p :: 16 word) AND 0xff) :: byte"
  have hi: "uint ?hi = p div 256"
    using assms by (rule uint_high_byte)
  have lo: "uint ?lo = p mod 256"
    using assms by (rule uint_low_byte)
  have "uint (word_of_int (p div 256) :: byte) = p div 256"
    using assms by (simp add: uint_word_of_int take_bit_eq_mod)
  with hi have hi': "?hi = word_of_int (p div 256)"
    by (simp add: word_uint_eq_iff)
  have "uint (word_of_int (p mod 256) :: byte) = p mod 256"
    by (simp add: uint_word_of_int take_bit_eq_mod)
  with lo have lo': "?lo = word_of_int (p mod 256)"
    by (simp add: word_uint_eq_iff)
  have frame: "eaf_set_position_frame (word_of_int p) =
           [0x03, 0x7e, 0x5a, 0x03, 0x01, 0x00, 0x00, 0x00,
            word_of_int (p div 256), word_of_int (p mod 256),
            0x00, 0x00, 0x00, 0x02, 0xea, 0x60]"
    unfolding eaf_set_position_frame_bytes hi' lo' ..
  have b8: "eaf_set_position_frame (word_of_int p) ! 8 = ?hi"
    by (simp add: eaf_set_position_frame_bytes)
  have b9: "eaf_set_position_frame (word_of_int p) ! 9 = ?lo"
    by (simp add: eaf_set_position_frame_bytes)
  have sent: "trace (snd (eaf_set_position w st (word_of_int p))) =
             Sent (eaf_set_position_frame (word_of_int p)) # trace st"
    by (simp add: eaf_set_position_def hid_send_feature_report_def)
  show ?thesis
    using frame b8 b9 hi lo sent by simp
qed

theorem eaf_set_position_frame_layout_witness:
  "(0 :: int) \<le> 26000 \<and> (26000 :: int) \<le> 65535
   \<and> eaf_set_position_frame 26000 =
       [0x03, 0x7e, 0x5a, 0x03, 0x01, 0x00, 0x00, 0x00, 0x65, 0x90, 0x00, 0x00, 0x00, 0x02, 0xea, 0x60]
   \<and> uint (eaf_set_position_frame 26000 ! 8) = 0x65
   \<and> uint (eaf_set_position_frame 26000 ! 9) = 0x90"
  using eaf_set_position_frame_layout [of 26000] by simp

section \<open>One position query\<close>

lemma hid_get_feature_report_17:
  "hid_get_feature_report w st ((replicate 17 0)[0 := 0x01]) =
     ((fst (get_result w (nget st)), hid_response w (nget st)),
      st\<lparr>nget := Suc (nget st),
         trace := Got (fst (get_result w (nget st))) (hid_response w (nget st)) # trace st\<rparr>)"
  by (simp add: hid_get_feature_report_def hid_response_def Let_def split: prod.splits)

lemma efw_get_position_cases:
  assumes "efw_get_position w st (Some slot) = (res, slotret, st')"
  shows "(send_result w (nsend st) \<noteq> 16 \<and> res = - 1 \<and> slotret = Some slot
            \<and> nsend st' = Suc (nsend st) \<and> nget st' = nget st
            \<and> trace st' = Sent (take 16 efw_get_position_request) # trace st)
       \<or> (send_result w (nsend st) = 16 \<and> fst (get_result w (nget st)) \<noteq> 16
            \<and> res = - 1 \<and> slotret = Some slot
            \<and> nsend st' = Suc (nsend st) \<and> nget st' = Suc (nget st)
            \<and> trace st' = Got (fst (get_result w (nget st))) (hid_response w (nget st))
                            # Sent (take 16 efw_get_position_request) # trace st)
       \<or> (send_result w (nsend st) = 16 \<and> fst (get_result w (nget st)) = 16
            \<and> res = (if efw_settled (hid_response w (nget st)) then 0
                       else if hid_response w (nget st) ! 4 = 6 \<or> hid_response w (nget st) ! 5 \<noteq> 0
                            then - 1 else 1)
            \<and> slotret = (if efw_settled (hid_response w (nget st))
                           then Some (hid_response w (nget st) ! 6) else Some slot)
            \<and> nsend st' = Suc (nsend st) \<and> nget st' = Suc (nget st)
            \<and> (\<exists>out. trace st' = out @ Got 16 (hid_response w (nget st))
                                      # Sent (take 16 efw_get_position_request) # trace st
                       \<and> (\<forall>e \<in> set out. \<exists>s a. e = Stdout s a \<or> e = Stderr s a)))"
  using assms
  by (auto simp: efw_get_position_def hid_send_feature_report_def hid_get_feature_report_17
      efw_settled_def emit_def Let_def split: if_splits)


lemma eaf_get_position_cases:
  assumes "eaf_get_position w st (Some pos) posmaxret = (res, posret', posmaxret', st')"
  shows "(send_result w (nsend st) \<noteq> 16 \<and> res = - 1 \<and> posret' = Some pos \<and> posmaxret' = posmaxret
            \<and> nsend st' = Suc (nsend st) \<and> nget st' = nget st
            \<and> trace st' = Sent (take 16 eaf_get_position_request) # trace st)
       \<or> (send_result w (nsend st) = 16 \<and> fst (get_result w (nget st)) \<noteq> 16
            \<and> res = - 1 \<and> posret' = Some pos \<and> posmaxret' = posmaxret
            \<and> nsend st' = Suc (nsend st) \<and> nget st' = Suc (nget st)
            \<and> trace st' = Got (fst (get_result w (nget st))) (hid_response w (nget st))
                            # Sent (take 16 eaf_get_position_request) # trace st)
       \<or> (send_result w (nsend st) = 16 \<and> fst (get_result w (nget st)) = 16
            \<and> res = (if hid_response w (nget st) ! 4 \<noteq> 0 then 1 else 0)
            \<and> posret' = Some (be16 (hid_response w (nget st) ! 8) (hid_response w (nget st) ! 9))
            \<and> posmaxret' = (case posmaxret of None \<Rightarrow> None
                 | Some m \<Rightarrow> Some (be16 (hid_response w (nget st) ! 14) (hid_response w (nget st) ! 15)))
            \<and> nsend st' = Suc (nsend st) \<and> nget st' = Suc (nget st)
            \<and> (\<exists>out. trace st' = out @ Got 16 (hid_response w (nget st))
                                      # Sent (take 16 eaf_get_position_request) # trace st
                       \<and> (\<forall>e \<in> set out. \<exists>s a. e = Stdout s a \<or> e = Stderr s a)))"
  using assms
  by (auto simp: eaf_get_position_def hid_send_feature_report_def hid_get_feature_report_17
      emit_def Let_def split: if_splits option.splits)

text \<open>
  C1, as the code has it. For a position report that was read (both transport calls returned 16),
  \<^verbatim>\<open>efw_get_position\<close> returns 0 (settled) with the slot cell set to byte 6 exactly when
  bytes 6, 7, 8 agree and the status byte (offset 4) is 1; otherwise it returns \<open>- 1\<close> (fatal)
  exactly when the status byte is 6 or the error code (offset 5) is not 0; and 1 (moving)
  in every other case, the slot cell untouched.
\<close>

theorem efw_get_position_classifies:
  assumes "send_result w (nsend st) = 16" and "fst (get_result w (nget st)) = 16"
  shows "(fst (efw_get_position w st (Some slot)) = 0 \<longleftrightarrow>
            hid_response w (nget st) ! 6 = hid_response w (nget st) ! 7
            \<and> hid_response w (nget st) ! 7 = hid_response w (nget st) ! 8
            \<and> hid_response w (nget st) ! 4 = 1)
       \<and> (fst (efw_get_position w st (Some slot)) = 0 \<longrightarrow>
            fst (snd (efw_get_position w st (Some slot))) = Some (hid_response w (nget st) ! 6))
       \<and> (fst (efw_get_position w st (Some slot)) = - 1 \<longleftrightarrow>
            \<not> (hid_response w (nget st) ! 6 = hid_response w (nget st) ! 7
               \<and> hid_response w (nget st) ! 7 = hid_response w (nget st) ! 8
               \<and> hid_response w (nget st) ! 4 = 1)
            \<and> (hid_response w (nget st) ! 4 = 6 \<or> hid_response w (nget st) ! 5 \<noteq> 0))
       \<and> (fst (efw_get_position w st (Some slot)) = 1 \<longleftrightarrow>
            \<not> (hid_response w (nget st) ! 6 = hid_response w (nget st) ! 7
               \<and> hid_response w (nget st) ! 7 = hid_response w (nget st) ! 8
               \<and> hid_response w (nget st) ! 4 = 1)
            \<and> hid_response w (nget st) ! 4 \<noteq> 6 \<and> hid_response w (nget st) ! 5 = 0)
       \<and> (fst (efw_get_position w st (Some slot)) \<noteq> 0 \<longrightarrow>
            fst (snd (efw_get_position w st (Some slot))) = Some slot)"
proof -
  obtain res slotret st' where r: "efw_get_position w st (Some slot) = (res, slotret, st')"
    by (cases "efw_get_position w st (Some slot)") auto
  from efw_get_position_cases [OF r] assms
  have "res = (if efw_settled (hid_response w (nget st)) then 0
               else if hid_response w (nget st) ! 4 = 6 \<or> hid_response w (nget st) ! 5 \<noteq> 0
                    then - 1 else 1)"
    and "slotret = (if efw_settled (hid_response w (nget st))
                    then Some (hid_response w (nget st) ! 6) else Some slot)"
    by auto
  then show ?thesis
    unfolding r by (auto simp: efw_settled_def)
qed

theorem efw_get_position_classifies_witness:
  "send_result (steady_wheel 1 0 3 3 3) (nsend initial_state) = 16
   \<and> fst (get_result (steady_wheel 1 0 3 3 3) (nget initial_state)) = 16
   \<and> fst (efw_get_position (steady_wheel 1 0 3 3 3) initial_state (Some 0)) = 0
   \<and> fst (snd (efw_get_position (steady_wheel 1 0 3 3 3) initial_state (Some 0))) = Some 3
   \<and> fst (efw_get_position (steady_wheel 1 0 3 3 4) initial_state (Some 0)) = 1
   \<and> fst (efw_get_position (steady_wheel 6 0 3 3 3) initial_state (Some 0)) = - 1"
  using efw_get_position_classifies [of "steady_wheel 1 0 3 3 3" initial_state 0]
    efw_get_position_classifies [of "steady_wheel 1 0 3 3 4" initial_state 0]
    efw_get_position_classifies [of "steady_wheel 6 0 3 3 3" initial_state 0]
  by (simp add: steady_wheel_def device_def initial_state_def hid_response_def efw_report_def)

text \<open>
  C1 as stated, with ``fatal whenever the status byte is 6 or the error code is not 0'', fails: a
  report with status 1, consistency bytes 3, 3, 3 and error code 5 is settled at slot 3,
  because the settle test comes first.
\<close>

theorem efw_get_position_errcode_counterexample:
  "send_result (steady_wheel 1 5 3 3 3) (nsend initial_state) = 16
   \<and> fst (get_result (steady_wheel 1 5 3 3 3) (nget initial_state)) = 16
   \<and> hid_response (steady_wheel 1 5 3 3 3) (nget initial_state) ! 5 = 5
   \<and> fst (efw_get_position (steady_wheel 1 5 3 3 3) initial_state (Some 0)) = 0
   \<and> fst (snd (efw_get_position (steady_wheel 1 5 3 3 3) initial_state (Some 0))) = Some 3
   \<and> fst (efw_get_position (steady_wheel 1 5 3 3 3) initial_state (Some 0)) \<noteq> - 1"
  by (simp add: steady_wheel_def device_def initial_state_def hid_response_def efw_report_def
      efw_get_position_def hid_send_feature_report_def hid_get_feature_report_def
      efw_report_unexpected_def emit_def Let_def)

text \<open>
  C5. With non-null out-parameters, the focuser's \<^verbatim>\<open>eaf_get_position\<close> returns \<open>- 1\<close>
  (fatal) when the send or the read does not report 16 bytes; when both do, it returns 0
  (settled) exactly when the status byte (offset 4) is 0 and 1 (moving) exactly when it is
  not, and it hands back the position read big-endian from offsets 8 and 9 and the
  maximum read big-endian from offsets 14 and 15.
\<close>

theorem eaf_get_position_classifies:
  "(send_result w (nsend st) \<noteq> 16 \<longrightarrow>
      fst (eaf_get_position w st (Some pos) (Some posmax)) = - 1)
   \<and> (send_result w (nsend st) = 16 \<and> fst (get_result w (nget st)) \<noteq> 16 \<longrightarrow>
      fst (eaf_get_position w st (Some pos) (Some posmax)) = - 1)
   \<and> (send_result w (nsend st) = 16 \<and> fst (get_result w (nget st)) = 16 \<longrightarrow>
        (fst (eaf_get_position w st (Some pos) (Some posmax)) = 0 \<longleftrightarrow>
           hid_response w (nget st) ! 4 = 0)
      \<and> (fst (eaf_get_position w st (Some pos) (Some posmax)) = 1 \<longleftrightarrow>
           hid_response w (nget st) ! 4 \<noteq> 0)
      \<and> fst (snd (eaf_get_position w st (Some pos) (Some posmax))) =
           Some (be16 (hid_response w (nget st) ! 8) (hid_response w (nget st) ! 9))
      \<and> fst (snd (snd (eaf_get_position w st (Some pos) (Some posmax)))) =
           Some (be16 (hid_response w (nget st) ! 14) (hid_response w (nget st) ! 15))
      \<and> uint (be16 (hid_response w (nget st) ! 8) (hid_response w (nget st) ! 9)) =
           256 * uint (hid_response w (nget st) ! 8) + uint (hid_response w (nget st) ! 9)
      \<and> uint (be16 (hid_response w (nget st) ! 14) (hid_response w (nget st) ! 15)) =
           256 * uint (hid_response w (nget st) ! 14) + uint (hid_response w (nget st) ! 15))"
proof -
  obtain res p m st' where
    r: "eaf_get_position w st (Some pos) (Some posmax) = (res, p, m, st')"
    by (cases "eaf_get_position w st (Some pos) (Some posmax)") auto
  from eaf_get_position_cases [OF r] show ?thesis
    unfolding r by (auto simp: uint_be16 split: if_splits)
qed

theorem eaf_get_position_classifies_witness:
  "send_result (steady_focuser 0 0x61 0xa8) (nsend initial_state) = 16
   \<and> fst (get_result (steady_focuser 0 0x61 0xa8) (nget initial_state)) = 16
   \<and> fst (eaf_get_position (steady_focuser 0 0x61 0xa8) initial_state (Some 0) (Some 0)) = 0
   \<and> map_option uint (fst (snd (eaf_get_position (steady_focuser 0 0x61 0xa8) initial_state (Some 0) (Some 0))))
       = Some 25000
   \<and> map_option uint (fst (snd (snd (eaf_get_position (steady_focuser 0 0x61 0xa8) initial_state (Some 0) (Some 0)))))
       = Some 60000
   \<and> fst (eaf_get_position (steady_focuser 1 0x61 0xd6) initial_state (Some 0) (Some 0)) = 1
   \<and> send_result deaf_focuser (nsend initial_state) \<noteq> 16
   \<and> fst (eaf_get_position deaf_focuser initial_state (Some 0) (Some 0)) = - 1
   \<and> send_result mute_focuser (nsend initial_state) = 16
   \<and> fst (get_result mute_focuser (nget initial_state)) \<noteq> 16
   \<and> fst (eaf_get_position mute_focuser initial_state (Some 0) (Some 0)) = - 1"
  using eaf_get_position_classifies [of "steady_focuser 0 0x61 0xa8" initial_state 0 0]
    eaf_get_position_classifies [of "steady_focuser 1 0x61 0xd6" initial_state 0 0]
    eaf_get_position_classifies [of deaf_focuser initial_state 0 0]
    eaf_get_position_classifies [of mute_focuser initial_state 0 0]
  by (simp add: steady_focuser_def deaf_focuser_def mute_focuser_def device_def initial_state_def
      hid_response_def eaf_report_def)

text \<open>
  C10. Whenever the send and the read of \<^verbatim>\<open>eaf_get_position\<close> both succeed, the position
  read from the response is written through \<^verbatim>\<open>posret\<close>, and the maximum through
  \<^verbatim>\<open>posmaxret\<close> when that pointer is not null, whatever the status byte is; the result
  code alone tells settled from moving.
\<close>

theorem eaf_get_position_writes_position:
  assumes "send_result w (nsend st) = 16" and "fst (get_result w (nget st)) = 16"
  shows "fst (snd (eaf_get_position w st (Some pos) posmaxret)) =
           Some (be16 (hid_response w (nget st) ! 8) (hid_response w (nget st) ! 9))
       \<and> fst (snd (snd (eaf_get_position w st (Some pos) posmaxret))) =
           (case posmaxret of
              None \<Rightarrow> None
            | Some m \<Rightarrow> Some (be16 (hid_response w (nget st) ! 14) (hid_response w (nget st) ! 15)))
       \<and> uint (be16 (hid_response w (nget st) ! 8) (hid_response w (nget st) ! 9)) =
           256 * uint (hid_response w (nget st) ! 8) + uint (hid_response w (nget st) ! 9)
       \<and> fst (eaf_get_position w st (Some pos) posmaxret) =
           (if hid_response w (nget st) ! 4 \<noteq> 0 then 1 else 0)"
proof -
  obtain res p m st' where
    r: "eaf_get_position w st (Some pos) posmaxret = (res, p, m, st')"
    by (cases "eaf_get_position w st (Some pos) posmaxret") auto
  from eaf_get_position_cases [OF r] assms show ?thesis
    unfolding r by (auto simp: uint_be16)
qed

theorem eaf_get_position_writes_position_witness:
  "send_result (steady_focuser 1 0x61 0xd6) (nsend initial_state) = 16
   \<and> fst (get_result (steady_focuser 1 0x61 0xd6) (nget initial_state)) = 16
   \<and> fst (eaf_get_position (steady_focuser 1 0x61 0xd6) initial_state (Some 0) None) = 1
   \<and> map_option uint (fst (snd (eaf_get_position (steady_focuser 1 0x61 0xd6) initial_state (Some 0) None)))
       = Some 25046
   \<and> fst (snd (snd (eaf_get_position (steady_focuser 1 0x61 0xd6) initial_state (Some 0) None))) = None
   \<and> map_option uint (fst (snd (snd (eaf_get_position (steady_focuser 1 0x61 0xd6) initial_state (Some 0) (Some 0)))))
       = Some 60000"
  using eaf_get_position_writes_position [of "steady_focuser 1 0x61 0xd6" initial_state 0 None]
    eaf_get_position_writes_position [of "steady_focuser 1 0x61 0xd6" initial_state 0 "Some 0"]
  by (simp add: steady_focuser_def device_def initial_state_def hid_response_def eaf_report_def
      uint_be16)

section \<open>The next slot\<close>

lemma uint_efw_nextslot: "uint (efw_nextslot slot) = uint slot mod 7 + 1"
proof -
  have e: "(uint slot - 1 + 1) mod 7 + 1 = uint slot mod 7 + 1"
    by simp
  have "uint slot mod 7 + 1 < 2 ^ 8" and "0 \<le> uint slot mod 7 + 1"
    using pos_mod_bound [of 7 "uint slot"] pos_mod_sign [of 7 "uint slot"] by simp_all
  then have "take_bit 8 (uint slot mod 7 + 1) = uint slot mod 7 + 1"
    by (simp only: take_bit_int_eq_self)
  then show ?thesis
    unfolding efw_nextslot_def e uint_word_of_int_eq by simp
qed

lemma efw_nextslot_range: "1 \<le> efw_nextslot slot \<and> efw_nextslot slot \<le> 7"
  using pos_mod_bound [of 7 "uint slot"] pos_mod_sign [of 7 "uint slot"]
  by (simp add: word_le_def uint_efw_nextslot)

lemma efw_set_position_nextslot:
  "efw_set_position w st (efw_nextslot slot) =
     (if send_result w (nsend st) \<noteq> 16 then - 1 else 0,
      st\<lparr>nsend := Suc (nsend st),
         trace := Sent (efw_set_position_frame (efw_nextslot slot)) # trace st\<rparr>)"
proof -
  have "efw_nextslot slot \<noteq> 0"
    using efw_nextslot_range [of slot] by auto
  moreover have "\<not> 7 < efw_nextslot slot"
    using efw_nextslot_range [of slot] by (simp add: not_less)
  ultimately show ?thesis
    by (simp add: efw_set_position_def hid_send_feature_report_def)
qed

text \<open>
  C9. For a current slot in \<open>[1, 7]\<close> the next slot of the move loop is in \<open>[1, 7]\<close> again, so
  \<^verbatim>\<open>efw_set_position\<close> called with it never takes its \<^verbatim>\<open>slot < 1 || slot > 7\<close> branch
  (which returns without touching the device): the command frame always reaches the
  transport.
\<close>

theorem efw_nextslot_never_rejected:
  assumes "1 \<le> slot" and "slot \<le> 7"
  shows "1 \<le> efw_nextslot slot \<and> efw_nextslot slot \<le> 7
       \<and> uint (efw_nextslot slot) = (if slot = 7 then 1 else uint slot + 1)
       \<and> efw_set_position w st (efw_nextslot slot) =
           (if send_result w (nsend st) \<noteq> 16 then - 1 else 0,
            st\<lparr>nsend := Suc (nsend st),
               trace := Sent (efw_set_position_frame (efw_nextslot slot)) # trace st\<rparr>)"
proof -
  have "uint slot \<le> 7" and "1 \<le> uint slot"
    using assms by (simp_all add: word_le_def)
  moreover have "slot = 7 \<longleftrightarrow> uint slot = 7"
    by (simp add: word_uint_eq_iff)
  ultimately have "uint (efw_nextslot slot) = (if slot = 7 then 1 else uint slot + 1)"
    by (auto simp: uint_efw_nextslot)
  then show ?thesis
    using efw_nextslot_range [of slot] efw_set_position_nextslot [of w st slot] by simp
qed

theorem efw_nextslot_never_rejected_witness:
  "(1 :: byte) \<le> 7 \<and> (7 :: byte) \<le> 7 \<and> efw_nextslot 7 = 1
   \<and> fst (efw_set_position dead_wheel initial_state (efw_nextslot 7)) = - 1
   \<and> trace (snd (efw_set_position dead_wheel initial_state (efw_nextslot 7))) =
       [Sent [0x03, 0x7e, 0x5a, 0x01, 0x02, 0x01, 0, 0, 0, 0, 0, 0, 0, 0, 0, 0]]"
proof -
  have "uint (efw_nextslot 7) = 1"
    using efw_nextslot_never_rejected [of 7] by simp
  then have n: "efw_nextslot 7 = 1"
    by (simp add: word_uint_eq_iff)
  show ?thesis
    using efw_nextslot_never_rejected [of 7 dead_wheel initial_state]
    by (simp add: n dead_wheel_def device_def initial_state_def efw_set_position_frame_bytes)
qed

section \<open>What the observations see of one call\<close>


lemma handle_events_output:
  "\<forall>e \<in> set out. \<exists>s a. e = Stdout s a \<or> e = Stderr s a \<Longrightarrow> handle_events (out @ tr) = handle_events tr"
  by (induction out) (auto simp: handle_events_def)

lemma not_set_position_requests:
  "\<not> is_eaf_set_position (take 16 eaf_get_position_request)"
  "\<not> is_efw_set_position (take 16 efw_get_position_request)"
  "\<not> is_efw_set_position (take 16 efw_get_info_request)"
  by (simp_all add: is_eaf_set_position_def is_efw_set_position_def eaf_get_position_request_bytes
      efw_get_position_request_bytes efw_get_info_request_bytes)


lemma eaf_get_position_handle:
  assumes "eaf_get_position w st (Some pos) posmaxret = (res, p, m, st')"
  shows "handle_events (trace st') = handle_events (trace st)"
  using eaf_get_position_cases [OF assms]
  by (auto simp: handle_events_output) (simp_all add: handle_events_def)

lemma emit_simps [simp]:
  "trace (emit e st) = e # trace st" "nsend (emit e st) = nsend st" "nget (emit e st) = nget st"
  by (simp_all add: emit_def)

lemma initial_state_simps [simp]:
  "trace initial_state = []" "nsend initial_state = 0" "nget initial_state = 0"
  by (simp_all add: initial_state_def)

lemma eaf_commanded_simps [simp]:
  "eaf_commanded [] = []"
  "eaf_commanded (Stdout s a # tr) = eaf_commanded tr"
  "eaf_commanded (Stderr s a # tr) = eaf_commanded tr"
  "eaf_commanded (Usleep t # tr) = eaf_commanded tr"
  "eaf_commanded (HidInit i # tr) = eaf_commanded tr"
  "eaf_commanded (HidOpen b # tr) = eaf_commanded tr"
  "eaf_commanded (HidString i # tr) = eaf_commanded tr"
  "eaf_commanded (HidClose # tr) = eaf_commanded tr"
  "eaf_commanded (HidExit # tr) = eaf_commanded tr"
  "eaf_commanded (Got r buf # tr) = eaf_commanded tr"
  by (simp_all add: eaf_commanded_def)

lemma handle_events_simps [simp]:
  "handle_events [] = []"
  "handle_events (Stdout s a # tr) = handle_events tr"
  "handle_events (Stderr s a # tr) = handle_events tr"
  "handle_events (Usleep t # tr) = handle_events tr"
  "handle_events (HidInit i # tr) = handle_events tr"
  "handle_events (HidOpen b # tr) = HidOpen b # handle_events tr"
  "handle_events (HidString i # tr) = handle_events tr"
  "handle_events (HidClose # tr) = HidClose # handle_events tr"
  "handle_events (HidExit # tr) = handle_events tr"
  "handle_events (Got r buf # tr) = handle_events tr"
  "handle_events (Sent f # tr) = handle_events tr"
  by (simp_all add: handle_events_def)

section \<open>The focuser's loops\<close>


lemma eaf_await_handle:
  assumes "eaf_await n w st pos posmax = Some r"
  shows "handle_events (trace (case r of Inl s \<Rightarrow> s | Inr (p, m, s) \<Rightarrow> s)) = handle_events (trace st)"
  using assms
proof (induction n arbitrary: st pos posmax)
  case 0
  then show ?case by simp
next
  case (Suc n)
  obtain res p m st1 where
    r: "eaf_get_position w st (Some pos) (Some posmax) = (res, p, m, st1)"
    by (cases "eaf_get_position w st (Some pos) (Some posmax)") auto
  note c = eaf_get_position_handle [OF r]
  show ?case
  proof (cases "res = - 1 \<or> res = 0")
    case True
    then show ?thesis
      using Suc.prems c by (auto simp: r Let_def split: if_splits)
  next
    case False
    then have "eaf_await n w (emit (Usleep 500000) st1)
                 (case p of Some x \<Rightarrow> x | None \<Rightarrow> pos) (case m of Some x \<Rightarrow> x | None \<Rightarrow> posmax) = Some r"
      using Suc.prems by (simp add: r Let_def)
    from Suc.IH [OF this] show ?thesis
      using c by simp
  qed
qed

lemma eaf_track_handle:
  assumes "eaf_track n w st pos targetpos = Some r"
  shows "handle_events (trace (left_in r)) = handle_events (trace st)"
  using assms
proof (induction n arbitrary: st pos)
  case 0
  then show ?case by (auto split: if_splits)
next
  case (Suc n)
  show ?case
  proof (cases "uint pos \<noteq> targetpos")
    case stay: False
    then show ?thesis using Suc.prems by auto
  next
    case go: True
    obtain res p m st1 where
      r: "eaf_get_position w st (Some pos) None = (res, p, m, st1)"
      by (cases "eaf_get_position w st (Some pos) None") auto
    note c = eaf_get_position_handle [OF r]
    let ?pos1 = "case p of Some x \<Rightarrow> x | None \<Rightarrow> pos"
    let ?st2 = "emit (Stdout ''current pos = %d (target %ld)'' [uint ?pos1, targetpos]) st1"
    show ?thesis
    proof (cases "res = - 1 \<or> (res = 0 \<and> uint ?pos1 = targetpos)")
      case True
      then show ?thesis
        using Suc.prems c go by (auto simp: r Let_def split: if_splits)
    next
      case False
      then have "eaf_track n w (emit (Usleep 500000) ?st2) ?pos1 targetpos = Some r"
        using Suc.prems go by (auto simp: r Let_def split: if_splits)
      from Suc.IH [OF this] show ?thesis
        using c by simp
    qed
  qed
qed

section \<open>The focuser's arguments and targets\<close>

lemma digits_value_nonneg: "0 \<le> acc \<Longrightarrow> 0 \<le> digits_value acc s"
proof (induction s arbitrary: acc)
  case Nil
  then show ?case by simp
next
  case (Cons c s)
  have "isdigit c \<Longrightarrow> (0 :: int) \<le> of_char c - 48"
  proof -
    assume "isdigit c"
    then have n: "(48 :: nat) \<le> of_char c"
      by (simp add: isdigit_def)
    have "(of_char c :: int) = int (of_char c)"
      by (simp only: of_nat_of_char)
    with n show ?thesis
      by linarith
  qed
  with Cons show ?case by simp
qed

lemma strtol_digits:
  assumes "ds \<noteq> []" and "\<forall>c \<in> set ds. isdigit c"
  shows "strtol ds = min LONG_MAX (digits_value 0 ds)"
    and "strtol (CHR ''+'' # ds) = min LONG_MAX (digits_value 0 ds)"
    and "strtol (CHR ''-'' # ds) = max LONG_MIN (- digits_value 0 ds)"
proof -
  obtain c r where ds: "ds = c # r"
    using assms(1) by (cases ds) auto
  have d: "isdigit c"
    using assms(2) ds by simp
  then have c: "\<not> isspace c" "c \<noteq> CHR ''-''" "c \<noteq> CHR ''+''"
    by (auto simp: isdigit_def isspace_def)
  have nn: "0 \<le> digits_value 0 ds"
    by (rule digits_value_nonneg) simp
  have "LONG_MIN \<le> 0" "0 \<le> LONG_MAX"
    by (simp_all add: LONG_MIN_def LONG_MAX_def)
  with nn show "strtol ds = min LONG_MAX (digits_value 0 ds)"
    using c by (simp add: strtol_def ds Let_def isspace_def)
  from nn \<open>LONG_MIN \<le> 0\<close> \<open>0 \<le> LONG_MAX\<close>
  show "strtol (CHR ''+'' # ds) = min LONG_MAX (digits_value 0 ds)"
    by (simp add: strtol_def Let_def isspace_def)
  from nn \<open>LONG_MIN \<le> 0\<close> \<open>0 \<le> LONG_MAX\<close>
  show "strtol (CHR ''-'' # ds) = max LONG_MIN (- digits_value 0 ds)"
    by (simp add: strtol_def Let_def isspace_def)
qed

lemma eaf_targetpos_digits:
  assumes "ds \<noteq> []" and "list_all isdigit ds"
  shows "eaf_targetpos (ds # rest) = min LONG_MAX (digits_value 0 ds)"
    and "eaf_targetpos ((CHR ''+'' # ds) # rest) = min LONG_MAX (digits_value 0 ds)"
    and "eaf_targetpos ((CHR ''-'' # ds) # rest) = min LONG_MAX (digits_value 0 ds)"
proof -
  have all: "\<forall>c \<in> set ds. isdigit c"
    using assms(2) by (simp add: list_all_iff)
  obtain c r where ds: "ds = c # r"
    using assms(1) by (cases ds) auto
  have "isdigit c"
    using all ds by simp
  then have "c \<noteq> CHR ''-''" "c \<noteq> CHR ''+''"
    by (auto simp: isdigit_def)
  then have "\<not> eaf_targetrel (ds # rest)"
    by (simp add: eaf_targetrel_def ds)
  then show "eaf_targetpos (ds # rest) = min LONG_MAX (digits_value 0 ds)"
    using strtol_digits(1) [OF assms(1) all] by (simp add: eaf_targetpos_def)
  show "eaf_targetpos ((CHR ''+'' # ds) # rest) = min LONG_MAX (digits_value 0 ds)"
    using strtol_digits(1) [OF assms(1) all] by (simp add: eaf_targetpos_def eaf_targetrel_def)
  show "eaf_targetpos ((CHR ''-'' # ds) # rest) = min LONG_MAX (digits_value 0 ds)"
    using strtol_digits(1) [OF assms(1) all] by (simp add: eaf_targetpos_def eaf_targetrel_def)
qed

text \<open>
  C7, as the code has it. The focuser's \<^verbatim>\<open>main\<close> rejects, with exit code 2 and before it has made any call to
  the HID library, every argument whose value lies outside \<open>[0, 65535]\<close>, the value being
  what \<^verbatim>\<open>strtol\<close> reads in base 10 after one leading sign character has been taken off;
  for an argument of the form \<open>[+-]?[0-9]+\<close> that value is its decimal magnitude (capped at
  \<^verbatim>\<open>LONG_MAX\<close>).
\<close>

theorem eaf_main_rejects_out_of_range:
  "(eaf_targetpos (arg # rest) < 0 \<or> 65535 < eaf_targetpos (arg # rest) \<longrightarrow>
      eaf_main n w (arg # rest) = Some (2, emit (Stderr ''invalid position requested'' []) initial_state)
      \<and> final_trace (eaf_main n w (arg # rest)) = [Stderr ''invalid position requested'' []])
   \<and> (ds \<noteq> [] \<and> list_all isdigit ds \<longrightarrow>
        eaf_targetpos (ds # rest) = min LONG_MAX (digits_value 0 ds)
      \<and> eaf_targetpos ((CHR ''+'' # ds) # rest) = min LONG_MAX (digits_value 0 ds)
      \<and> eaf_targetpos ((CHR ''-'' # ds) # rest) = min LONG_MAX (digits_value 0 ds))"
proof -
  have "eaf_main n w (arg # rest) = Some (2, emit (Stderr ''invalid position requested'' []) initial_state)"
    if "eaf_targetpos (arg # rest) < 0 \<or> 65535 < eaf_targetpos (arg # rest)"
    using that by (simp add: eaf_main_def Let_def errexitlast_def)
  then show ?thesis
    using eaf_targetpos_digits [of ds rest]
    by (auto simp: final_trace_def initial_state_def)
qed

theorem eaf_main_rejects_out_of_range_witness:
  "65535 < eaf_targetpos [''70000'']
   \<and> eaf_main 0 (steady_focuser 0 0 0) [''70000''] =
       Some (2, emit (Stderr ''invalid position requested'' []) initial_state)
   \<and> final_trace (eaf_main 0 (steady_focuser 0 0 0) [''70000'']) = [Stderr ''invalid position requested'' []]
   \<and> ''70000'' \<noteq> [] \<and> list_all isdigit ''70000''
   \<and> eaf_targetpos [''-70000''] = 70000
   \<and> eaf_main 0 (steady_focuser 0 0 0) [''-70000''] =
       Some (2, emit (Stderr ''invalid position requested'' []) initial_state)"
proof -
  have d: "''70000'' \<noteq> []" "list_all isdigit ''70000''"
    by (simp_all add: isdigit_def)
  have v: "min LONG_MAX (digits_value 0 ''70000'') = 70000"
    by (simp add: isdigit_def LONG_MAX_def)
  have p: "eaf_targetpos [''70000''] = 70000" "eaf_targetpos [''-70000''] = 70000"
    using eaf_main_rejects_out_of_range [of "''70000''" "[]" 0 "steady_focuser 0 0 0" "''70000''"] d v
    by simp_all
  show ?thesis
    using eaf_main_rejects_out_of_range [of "''70000''" "[]" 0 "steady_focuser 0 0 0" "''70000''"]
      eaf_main_rejects_out_of_range [of "''-70000''" "[]" 0 "steady_focuser 0 0 0" "''70000''"]
      d p
    by (simp add: final_trace_def initial_state_def)
qed

text \<open>
  C7 as stated, with ``every malformed argument'', fails: \<^verbatim>\<open>strtol\<close> reads \<^verbatim>\<open>abc\<close> as 0, which is
  in range, so the run opens the device, polls it once, sends the set-position frame for
  position 0 and, the focuser being at 0, exits with code 0.
\<close>

theorem eaf_main_malformed_counterexample:
  "eaf_targetpos [''abc''] = 0
   \<and> exit_code (eaf_main (Suc 0) (steady_focuser 0 0 0) [''abc'']) = Some 0
   \<and> eaf_commanded (final_trace (eaf_main (Suc 0) (steady_focuser 0 0 0) [''abc''])) =
       [[0x03, 0x7e, 0x5a, 0x03, 0x01, 0x00, 0x00, 0x00, 0x00, 0x00, 0x00, 0x00, 0x00, 0x02, 0xea, 0x60]]
   \<and> polls (eaf_main (Suc 0) (steady_focuser 0 0 0) [''abc'']) = 1"
  by code_simp








section \<open>The wheel's calls and loops: the device handle\<close>

lemma efw_get_position_handle:
  assumes "efw_get_position w st (Some slot) = (res, slotret, st')"
  shows "handle_events (trace st') = handle_events (trace st)"
  using efw_get_position_cases [OF assms]
  by (auto simp: handle_events_output)

lemma efw_get_info_handle:
  assumes "efw_get_info w st = (res, st')"
  shows "handle_events (trace st') = handle_events (trace st)"
  using assms
  by (auto simp: efw_get_info_def hid_send_feature_report_def hid_get_feature_report_17
      split: if_splits)

lemma efw_set_position_handle:
  assumes "efw_set_position w st slot = (res, st')"
  shows "handle_events (trace st') = handle_events (trace st)"
  using assms
  by (auto simp: efw_set_position_def hid_send_feature_report_def split: if_splits)

lemma eaf_set_position_handle:
  assumes "eaf_set_position w st pos = (res, st')"
  shows "handle_events (trace st') = handle_events (trace st)"
  using assms
  by (auto simp: eaf_set_position_def hid_send_feature_report_def split: if_splits)

lemma efw_await_handle:
  assumes "efw_await n w st slot = Some r"
  shows "handle_events (trace (left_in r)) = handle_events (trace st)"
  using assms
proof (induction n arbitrary: st slot)
  case 0
  then show ?case by simp
next
  case (Suc n)
  obtain res s st1 where r: "efw_get_position w st (Some slot) = (res, s, st1)"
    by (cases "efw_get_position w st (Some slot)") auto
  note c = efw_get_position_handle [OF r]
  show ?case
  proof (cases "res = - 1 \<or> res = 0")
    case True
    then show ?thesis
      using Suc.prems c by (auto simp: r Let_def split: if_splits)
  next
    case False
    then have "efw_await n w (emit (Usleep 500000) st1) (case s of Some x \<Rightarrow> x | None \<Rightarrow> slot) = Some r"
      using Suc.prems by (simp add: r Let_def)
    from Suc.IH [OF this] show ?thesis
      using c by simp
  qed
qed

lemma efw_step_poll_handle:
  "handle_events (trace (polled_in (efw_step_poll i w st slot nextslot))) = handle_events (trace st)"
proof (induction "100 - i" arbitrary: i st slot)
  case 0
  then show ?case
    by (simp add: efw_step_poll.simps [of i])
next
  case (Suc k)
  then have i: "i < 100" by simp
  obtain res s st1 where r: "efw_get_position w st (Some slot) = (res, s, st1)"
    by (cases "efw_get_position w st (Some slot)") auto
  note c = efw_get_position_handle [OF r]
  let ?slot1 = "case s of Some x \<Rightarrow> x | None \<Rightarrow> slot"
  show ?case
  proof (cases "res = - 1 \<or> (res = 0 \<and> ?slot1 = nextslot)")
    case True
    then show ?thesis
      using c i by (auto simp: efw_step_poll.simps [of i] r Let_def)
  next
    case False
    then have "efw_step_poll i w st slot nextslot =
               efw_step_poll (Suc i) w (emit (Usleep 500000) st1) ?slot1 nextslot"
      using i by (auto simp: efw_step_poll.simps [of i] r Let_def)
    moreover have "k = 100 - Suc i"
      using Suc.hyps(2) by simp
    ultimately show ?thesis
      using Suc.hyps(1) [of "Suc i" "emit (Usleep 500000) st1" ?slot1] c by simp
  qed
qed

lemma efw_move_handle:
  assumes "efw_move n w st slot targetslot = Some r"
  shows "handle_events (trace (left_in r)) = handle_events (trace st)"
  using assms
proof (induction n arbitrary: st slot)
  case 0
  then show ?case by (auto split: if_splits)
next
  case (Suc n)
  show ?case
  proof (cases "slot = targetslot")
    case True
    then show ?thesis using Suc.prems by auto
  next
    case go: False
    let ?st1 = "emit (Stdout ''request slot %d'' [uint (efw_nextslot slot)]) st"
    obtain res st2 where s: "efw_set_position w ?st1 (efw_nextslot slot) = (res, st2)"
      by (cases "efw_set_position w ?st1 (efw_nextslot slot)") auto
    have h2: "handle_events (trace st2) = handle_events (trace st)"
      using efw_set_position_handle [OF s] by simp
    show ?thesis
    proof (cases "res = 0")
      case False
      then show ?thesis
        using Suc.prems go h2 by (auto simp: s Let_def)
    next
      case True
      note h3 = efw_step_poll_handle [of 0 w st2 slot "efw_nextslot slot"]
      show ?thesis
      proof (cases "efw_step_poll 0 w st2 slot (efw_nextslot slot)")
        case (Inl st3)
        then show ?thesis
          using Suc.prems go True h2 h3 by (auto simp: s Let_def)
      next
        case (Inr t)
        obtain i slot1 st3 where t: "t = (i, slot1, st3)"
          by (cases t) auto
        have "efw_move n w (emit (Stdout ''current slot = %d'' [uint slot1]) st3) slot1 targetslot = Some r"
          using Suc.prems go True by (simp add: s Let_def Inr t)
        from Suc.IH [OF this] show ?thesis
          using h2 h3 by (simp add: Inr t)
      qed
    qed
  qed
qed

section \<open>The device handle over a whole run\<close>

lemmas exits = errexit_def errexitlast_def exit_success_def

lemma efw_opened_handle:
  assumes "efw_opened n w st slot0 targetslot = Some (code, st')"
  shows "handle_events (trace st') = HidClose # handle_events (trace st)"
proof -
  let ?st1 = "if apple w then st else emit (HidString (manufacturer_result w)) st"
  let ?st2 = "if apple w then ?st1
              else emit (HidString (product_result w)) (emit (Stdout ''Manufacturer String: %ls'' []) ?st1)"
  let ?st3 = "if apple w then ?st2 else emit (Stdout ''Product String: %ls'' []) ?st2"
  have h3: "handle_events (trace ?st3) = handle_events (trace st)"
    "handle_events (trace ?st2) = handle_events (trace st)"
    "handle_events (trace ?st1) = handle_events (trace st)"
    by simp_all
  show ?thesis
  proof (cases "(\<not> apple w \<and> manufacturer_result w \<noteq> 0) \<or> (\<not> apple w \<and> product_result w \<noteq> 0)")
    case True
    then show ?thesis
      using assms h3
      by (auto simp: efw_opened_def Let_def exits split: if_splits)
  next
    case strings: False
    obtain res st4 where i: "efw_get_info w ?st3 = (res, st4)"
      by (cases "efw_get_info w ?st3") auto
    have h4: "handle_events (trace st4) = handle_events (trace st)"
      using efw_get_info_handle [OF i] h3 by simp
    show ?thesis
    proof (cases "res = 0")
      case False
      then have "efw_opened n w st slot0 targetslot = Some (errexit True st4)"
        using strings i by (auto simp: efw_opened_def Let_def)
      then show ?thesis
        using assms h4 by (auto simp: exits)
    next
      case True
      then have o: "efw_opened n w st slot0 targetslot =
          (case efw_await n w st4 slot0 of
             None \<Rightarrow> None
           | Some (Inl st5) \<Rightarrow> Some (errexit True st5)
           | Some (Inr (slot, st5)) \<Rightarrow>
               (let targetslot' = (if targetslot = 0 then slot else targetslot)
                in (case efw_move n w st5 slot targetslot' of
                      None \<Rightarrow> None
                    | Some (Inl st6) \<Rightarrow> Some (errexit True st6)
                    | Some (Inr (slot', st6)) \<Rightarrow>
                        Some (exit_success (emit (Stdout ''final slot = %d'' [uint slot']) st6)))))"
        using strings i by (auto simp: efw_opened_def Let_def)
      obtain a where a: "efw_await n w st4 slot0 = Some a"
        using assms o by (cases "efw_await n w st4 slot0") auto
      note h5 = efw_await_handle [OF a]
      show ?thesis
      proof (cases a)
        case (Inl st5)
        then show ?thesis
          using assms o a h5 h4 by (auto simp: exits)
      next
        case (Inr t)
        obtain slot st5 where t: "t = (slot, st5)"
          by (cases t) auto
        let ?target = "if targetslot = 0 then slot else targetslot"
        obtain m where m: "efw_move n w st5 slot ?target = Some m"
          using assms o a Inr t by (cases "efw_move n w st5 slot ?target") (auto simp: Let_def)
        note h6 = efw_move_handle [OF m]
        show ?thesis
        proof (cases m)
          case (Inl st6)
          then show ?thesis
            using assms o a Inr t m h6 h5 h4 by (auto simp: exits Let_def)
        next
          case mr: (Inr u)
          obtain slot' st6 where u: "u = (slot', st6)"
            by (cases u) auto
          show ?thesis
            using assms o a Inr t m mr u h6 h5 h4
            by (auto simp: exits Let_def)
        qed
      qed
    qed
  qed
qed

lemma eaf_request_handle:
  assumes "eaf_request n w st pos posmax targetpos targetrel targetrelsign = Some (code, st')"
  shows "handle_events (trace st') = HidClose # handle_events (trace st)"
proof (cases "targetpos = - 1")
  case True
  then show ?thesis
    using assms by (auto simp: eaf_request_def exits)
next
  case req: False
  let ?t = "eaf_resolve pos targetrel targetrelsign targetpos"
  let ?st1 = "emit (Stderr ''requesting target %ld'' [?t]) st"
  show ?thesis
  proof (cases "?t < 0 \<or> ?t > uint posmax")
    case True
    then have "eaf_request n w st pos posmax targetpos targetrel targetrelsign =
               Some (errexit True (emit (Stderr ''invalid target %ld'' [?t]) ?st1))"
      using req by (auto simp: eaf_request_def Let_def)
    then show ?thesis
      using assms by (auto simp: exits)
  next
    case inrange: False
    obtain res st2 where s: "eaf_set_position w ?st1 (word_of_int ?t) = (res, st2)"
      by (cases "eaf_set_position w ?st1 (word_of_int ?t)") auto
    have h2: "handle_events (trace st2) = handle_events (trace st)"
      using eaf_set_position_handle [OF s] by simp
    show ?thesis
    proof (cases "res = 0")
      case False
      then have "eaf_request n w st pos posmax targetpos targetrel targetrelsign = Some (errexit True st2)"
        using req inrange s by (auto simp: eaf_request_def Let_def)
      then show ?thesis
        using assms h2 by (auto simp: exits)
    next
      case True
      then have o: "eaf_request n w st pos posmax targetpos targetrel targetrelsign =
          (case eaf_track n w st2 pos ?t of
             None \<Rightarrow> None
           | Some (Inl st3) \<Rightarrow> Some (errexit True st3)
           | Some (Inr (pos', st3)) \<Rightarrow> Some (exit_success st3))"
        using req inrange s by (auto simp: eaf_request_def Let_def)
      obtain a where a: "eaf_track n w st2 pos ?t = Some a"
        using assms o by (cases "eaf_track n w st2 pos ?t") auto
      note h3 = eaf_track_handle [OF a]
      show ?thesis
      proof (cases a)
        case (Inl st3)
        then show ?thesis
          using assms o a h3 h2 by (auto simp: exits)
      next
        case (Inr u)
        obtain pos' st3 where u: "u = (pos', st3)"
          by (cases u) auto
        show ?thesis
          using assms o a Inr u h3 h2 by (auto simp: exits)
      qed
    qed
  qed
qed

text \<open>
  C8. On every run of either program that ends, the events on the device handle are, in
  the order they happened, none at all (the run ended before \<^verbatim>\<open>hid_open\<close>), a failed
  \<^verbatim>\<open>hid_open\<close> alone (no handle to release), or a successful \<^verbatim>\<open>hid_open\<close> followed by
  exactly one \<^verbatim>\<open>hid_close\<close>. (The trace lists the latest event first.)
\<close>

theorem device_handle_released:
  "(efw_main n w slot0 args = Some (code, st) \<longrightarrow>
      handle_events (trace st) = []
      \<or> handle_events (trace st) = [HidOpen False]
      \<or> handle_events (trace st) = [HidClose, HidOpen True])
   \<and> (eaf_main n w args = Some (code, st) \<longrightarrow>
      handle_events (trace st) = []
      \<or> handle_events (trace st) = [HidOpen False]
      \<or> handle_events (trace st) = [HidClose, HidOpen True])"
proof -
  let ?st2 = "emit (HidOpen (open_ok w)) (emit (HidInit (init_result w)) initial_state)"
  have efw: "handle_events (trace st) = []
      \<or> handle_events (trace st) = [HidOpen False]
      \<or> handle_events (trace st) = [HidClose, HidOpen True]"
    if run: "efw_main n w slot0 args = Some (code, st)"
  proof (cases "(args \<noteq> [] \<and> ((case args of [] \<Rightarrow> 0 | str # _ \<Rightarrow> strtol str) < 1
                                \<or> (case args of [] \<Rightarrow> 0 | str # _ \<Rightarrow> strtol str) > 7))
               \<or> init_result w \<noteq> 0 \<or> \<not> open_ok w")
    case True
    then show ?thesis
      using run by (auto simp: efw_main_def Let_def exits split: if_splits)
  next
    case False
    then obtain targetslot where "efw_opened n w ?st2 slot0 targetslot = Some (code, st)"
      using run by (auto simp: efw_main_def Let_def split: if_splits)
    from efw_opened_handle [OF this] False show ?thesis
      by simp
  qed
  have eaf: "handle_events (trace st) = []
      \<or> handle_events (trace st) = [HidOpen False]
      \<or> handle_events (trace st) = [HidClose, HidOpen True]"
    if run: "eaf_main n w args = Some (code, st)"
  proof (cases "(args \<noteq> [] \<and> (eaf_targetpos args < 0 \<or> eaf_targetpos args > 0xffff))
               \<or> init_result w \<noteq> 0 \<or> \<not> open_ok w")
    case True
    then show ?thesis
      using run by (auto simp: eaf_main_def Let_def exits split: if_splits)
  next
    case False
    then have o: "eaf_main n w args =
        (case eaf_await n w ?st2 0 0 of
           None \<Rightarrow> None
         | Some (Inl st3) \<Rightarrow> Some (errexit True st3)
         | Some (Inr (pos, posmax, st3)) \<Rightarrow>
             eaf_request n w
               (emit (Stdout ''current pos = %d (max %d)'' [uint pos, uint posmax]) st3)
               pos posmax (eaf_targetpos args) (eaf_targetrel args)
               (if eaf_targetrel args then Some (hd args) else None))"
      by (auto simp: eaf_main_def Let_def)
    obtain a where a: "eaf_await n w ?st2 0 0 = Some a"
      using run o by (cases "eaf_await n w ?st2 0 0") auto
    note h = eaf_await_handle [OF a]
    show ?thesis
    proof (cases a)
      case (Inl st3)
      then show ?thesis
        using run o a h False by (auto simp: exits)
    next
      case (Inr t)
      obtain pos posmax st3 where t: "t = (pos, posmax, st3)"
        by (cases t) auto
      have "eaf_request n w
               (emit (Stdout ''current pos = %d (max %d)'' [uint pos, uint posmax]) st3)
               pos posmax (eaf_targetpos args) (eaf_targetrel args)
               (if eaf_targetrel args then Some (hd args) else None) = Some (code, st)"
        using run o a Inr t by simp
      from eaf_request_handle [OF this] show ?thesis
        using h Inr t False by simp
    qed
  qed
  from efw eaf show ?thesis
    by blast
qed

theorem device_handle_released_witness:
  "efw_main 0 prompt_wheel 0 [''9''] =
     Some (2, emit (Stderr ''invalid filter slot requested'' []) initial_state)
   \<and> handle_events (final_trace (efw_main 0 prompt_wheel 0 [''9''])) = []
   \<and> exit_code (efw_main 0 absent_device 0 [''4'']) = Some 2
   \<and> handle_events (final_trace (efw_main 0 absent_device 0 [''4''])) = [HidOpen False]
   \<and> exit_code (efw_main 2 prompt_wheel 0 [''4'']) = Some 0
   \<and> handle_events (final_trace (efw_main 2 prompt_wheel 0 [''4''])) = [HidClose, HidOpen True]
   \<and> exit_code (eaf_main 1 (steady_focuser 0 0 10) [''-30'']) = Some 2
   \<and> handle_events (final_trace (eaf_main 1 (steady_focuser 0 0 10) [''-30''])) = [HidClose, HidOpen True]
   \<and> exit_code (eaf_main 1 (steady_focuser 0 0 10) [''10'']) = Some 0
   \<and> handle_events (final_trace (eaf_main 1 (steady_focuser 0 0 10) [''10''])) = [HidClose, HidOpen True]"
proof -
  have a: "efw_main 0 prompt_wheel 0 [''9''] =
     Some (2, emit (Stderr ''invalid filter slot requested'' []) initial_state)"
    by code_simp
  have b: "exit_code (efw_main 0 absent_device 0 [''4'']) = Some 2"
    "handle_events (final_trace (efw_main 0 absent_device 0 [''4''])) = [HidOpen False]"
    by code_simp+
  have c: "exit_code (efw_main 2 prompt_wheel 0 [''4'']) = Some 0"
    "handle_events (final_trace (efw_main 2 prompt_wheel 0 [''4''])) = [HidClose, HidOpen True]"
    by code_simp+
  have d: "exit_code (eaf_main 1 (steady_focuser 0 0 10) [''-30'']) = Some 2"
    "handle_events (final_trace (eaf_main 1 (steady_focuser 0 0 10) [''-30''])) = [HidClose, HidOpen True]"
    by code_simp+
  have e: "exit_code (eaf_main 1 (steady_focuser 0 0 10) [''10'']) = Some 0"
    "handle_events (final_trace (eaf_main 1 (steady_focuser 0 0 10) [''10''])) = [HidClose, HidOpen True]"
    by code_simp+
  show ?thesis
    using device_handle_released [of 0 prompt_wheel 0 "[''9'']" 2
        "emit (Stderr ''invalid filter slot requested'' []) initial_state"]
      a b c d e
    by (simp add: final_trace_def)
qed

section \<open>The stepping policy\<close>

lemma stepping_start: "stepping s tr tr s"
  by (simp add: stepping_def)

lemma stepping_other:
  assumes "stepping s base tr slot" and "\<And>f. e \<noteq> Sent f" and "\<And>r b. e \<noteq> Got r b"
  shows "stepping s base (e # tr) slot"
proof -
  obtain evs where e: "tr = evs @ base" "single_steps s evs" "last_settled s evs = slot"
    using assms(1) by (auto simp: stepping_def)
  have "single_steps s (e # evs)" "last_settled s (e # evs) = slot"
    using e assms(2,3) by (cases e; simp)+
  then show ?thesis
    unfolding stepping_def using e(1) by (intro exI [of _ "e # evs"]) simp
qed

lemma stepping_sent:
  assumes "stepping s base tr slot" and "is_efw_set_position f \<Longrightarrow> f ! 5 = efw_nextslot slot"
  shows "stepping s base (Sent f # tr) slot"
proof -
  obtain evs where e: "tr = evs @ base" "single_steps s evs" "last_settled s evs = slot"
    using assms(1) by (auto simp: stepping_def)
  have "single_steps s (Sent f # evs)" "last_settled s (Sent f # evs) = slot"
    using e assms(2) by simp_all
  then show ?thesis
    unfolding stepping_def using e(1) by (intro exI [of _ "Sent f # evs"]) simp
qed

lemma stepping_got:
  assumes "stepping s base tr slot"
  shows "stepping s base (Got res buf # tr) (if res = 16 \<and> efw_settled buf then buf ! 6 else slot)"
proof -
  obtain evs where e: "tr = evs @ base" "single_steps s evs" "last_settled s evs = slot"
    using assms(1) by (auto simp: stepping_def)
  have "single_steps s (Got res buf # evs)"
    "last_settled s (Got res buf # evs) = (if res = 16 \<and> efw_settled buf then buf ! 6 else slot)"
    using e by simp_all
  then show ?thesis
    unfolding stepping_def using e(1) by (intro exI [of _ "Got res buf # evs"]) simp
qed

lemma stepping_output:
  assumes "stepping s base tr slot" and "\<forall>e \<in> set out. \<exists>s a. e = Stdout s a \<or> e = Stderr s a"
  shows "stepping s base (out @ tr) slot"
  using assms(2)
proof (induction out)
  case Nil
  then show ?case using assms(1) by simp
next
  case (Cons e out)
  then have "stepping s base (out @ tr) slot"
    by simp
  moreover have "\<And>f. e \<noteq> Sent f" "\<And>r b. e \<noteq> Got r b"
    using Cons.prems by auto
  ultimately show ?case
    using stepping_other [of s base "out @ tr" slot e] by simp
qed

lemma efw_get_position_stepping:
  assumes "stepping s base (trace st) slot"
    and "efw_get_position w st (Some slot) = (res, slotret, st')"
  shows "stepping s base (trace st') (case slotret of Some x \<Rightarrow> x | None \<Rightarrow> slot)"
proof -
  let ?req = "take 16 efw_get_position_request"
  have sent: "stepping s base (Sent ?req # trace st) slot"
    using assms(1) by (rule stepping_sent) (simp add: not_set_position_requests)
  consider
    (nosend) "slotret = Some slot" "trace st' = Sent ?req # trace st"
  | (noread) r buf where "r \<noteq> 16" "slotret = Some slot" "trace st' = Got r buf # Sent ?req # trace st"
  | (read) buf out where
      "slotret = (if efw_settled buf then Some (buf ! 6) else Some slot)"
      "trace st' = out @ Got 16 buf # Sent ?req # trace st"
      "\<forall>e \<in> set out. \<exists>s a. e = Stdout s a \<or> e = Stderr s a"
    using efw_get_position_cases [OF assms(2)] by blast
  then show ?thesis
  proof cases
    case nosend
    then show ?thesis using sent by simp
  next
    case noread
    then show ?thesis
      using stepping_got [OF sent, of r buf] by simp
  next
    case read
    have "stepping s base (Got 16 buf # Sent ?req # trace st)
            (if efw_settled buf then buf ! 6 else slot)"
      using stepping_got [OF sent, of 16 buf] by simp
    from stepping_output [OF this read(3)] show ?thesis
      using read(1,2) by (auto split: if_splits)
  qed
qed

lemma efw_step_poll_stepping:
  assumes "stepping s base (trace st) slot"
  shows "case efw_step_poll i w st slot nextslot of
           Inl st' \<Rightarrow> \<exists>slot'. stepping s base (trace st') slot'
         | Inr (j, slot', st') \<Rightarrow> stepping s base (trace st') slot'"
  using assms
proof (induction "100 - i" arbitrary: i st slot)
  case 0
  then show ?case
    by (simp add: efw_step_poll.simps [of i])
next
  case (Suc k)
  then have i: "i < 100" by simp
  obtain res sr st1 where r: "efw_get_position w st (Some slot) = (res, sr, st1)"
    by (cases "efw_get_position w st (Some slot)") auto
  let ?slot1 = "case sr of Some x \<Rightarrow> x | None \<Rightarrow> slot"
  have s1: "stepping s base (trace st1) ?slot1"
    using efw_get_position_stepping [OF Suc.prems r] .
  show ?case
  proof (cases "res = - 1 \<or> (res = 0 \<and> ?slot1 = nextslot)")
    case True
    have "stepping s base (trace (emit (Stderr ''unrecoverable wheel error, needs physical reset'' []) st1)) ?slot1"
      using stepping_other [OF s1] by simp
    then show ?thesis
      using True s1 i by (auto simp: efw_step_poll.simps [of i] r Let_def)
  next
    case False
    then have e: "efw_step_poll i w st slot nextslot =
               efw_step_poll (Suc i) w (emit (Usleep 500000) st1) ?slot1 nextslot"
      using i by (auto simp: efw_step_poll.simps [of i] r Let_def)
    have "stepping s base (trace (emit (Usleep 500000) st1)) ?slot1"
      using stepping_other [OF s1] by simp
    moreover have "k = 100 - Suc i"
      using Suc.hyps(2) by simp
    ultimately show ?thesis
      using Suc.hyps(1) [of "Suc i" "emit (Usleep 500000) st1" ?slot1] e by simp
  qed
qed

lemma efw_move_stepping:
  assumes "stepping s base (trace st) slot" and "efw_move n w st slot targetslot = Some r"
  shows "\<exists>slot'. stepping s base (trace (left_in r)) slot'"
  using assms
proof (induction n arbitrary: st slot)
  case 0
  then show ?case by (auto split: if_splits)
next
  case (Suc n)
  show ?case
  proof (cases "slot = targetslot")
    case True
    then show ?thesis using Suc.prems by auto
  next
    case go: False
    let ?next = "efw_nextslot slot"
    let ?st1 = "emit (Stdout ''request slot %d'' [uint ?next]) st"
    obtain res st2 where set: "efw_set_position w ?st1 ?next = (res, st2)"
      by (cases "efw_set_position w ?st1 ?next") auto
    have t2: "trace st2 = Sent (efw_set_position_frame ?next) # Stdout ''request slot %d'' [uint ?next] # trace st"
      using set by (auto simp: efw_set_position_nextslot)
    have "stepping s base (Stdout ''request slot %d'' [uint ?next] # trace st) slot"
      using stepping_other [OF Suc.prems(1)] by simp
    then have s2: "stepping s base (trace st2) slot"
      unfolding t2 by (rule stepping_sent) (simp add: efw_set_position_frame_bytes)
    show ?thesis
    proof (cases "res = 0")
      case False
      then show ?thesis
        using Suc.prems(2) go s2 by (auto simp: set Let_def)
    next
      case True
      note p = efw_step_poll_stepping [OF s2, of 0 w ?next]
      show ?thesis
      proof (cases "efw_step_poll 0 w st2 slot ?next")
        case (Inl st3)
        then show ?thesis
          using Suc.prems(2) go True p by (auto simp: set Let_def)
      next
        case (Inr t)
        obtain i slot1 st3 where t: "t = (i, slot1, st3)"
          by (cases t) auto
        have s3: "stepping s base (trace st3) slot1"
          using p by (simp add: Inr t)
        have "stepping s base (trace (emit (Stdout ''current slot = %d'' [uint slot1]) st3)) slot1"
          using stepping_other [OF s3] by simp
        moreover have "efw_move n w (emit (Stdout ''current slot = %d'' [uint slot1]) st3) slot1 targetslot = Some r"
          using Suc.prems(2) go True by (simp add: set Let_def Inr t)
        ultimately show ?thesis
          by (rule Suc.IH)
      qed
    qed
  qed
qed

text \<open>
  C3. Whatever the device answers, every set-position command the move loop sends names
  the slot after the one last settled, \<open>((current - 1 + 1) mod 7) + 1\<close>: the events the loop
  adds to the trace satisfy \<open>single_steps\<close>, started with the slot the loop was entered
  with. This holds for every current and target slot, those in \<open>[1, 7]\<close> among them. In
  particular the run from slot 3 to slot 6, on a wheel that settles promptly, commands the
  slots 4, 5, 6 in this order.
\<close>

theorem efw_move_single_steps:
  "(efw_move n w st slot targetslot = Some r \<longrightarrow>
      (\<exists>evs. trace (left_in r) = evs @ trace st \<and> single_steps slot evs))
   \<and> uint (efw_nextslot slot) = (uint slot - 1 + 1) mod 7 + 1
   \<and> exit_code (efw_main 4 prompt_wheel 0 [''6'']) = Some 0
   \<and> efw_commanded (final_trace (efw_main 4 prompt_wheel 0 [''6''])) = [4, 5, 6]"
proof -
  have "\<exists>evs. trace (left_in r) = evs @ trace st \<and> single_steps slot evs"
    if "efw_move n w st slot targetslot = Some r"
    using efw_move_stepping [OF stepping_start that] by (auto simp: stepping_def)
  moreover have "uint (efw_nextslot slot) = (uint slot - 1 + 1) mod 7 + 1"
    by (simp add: uint_efw_nextslot)
  moreover have "exit_code (efw_main 4 prompt_wheel 0 [''6'']) = Some 0"
    by code_simp
  moreover have "efw_commanded (final_trace (efw_main 4 prompt_wheel 0 [''6''])) = [4, 5, 6]"
    by code_simp
  ultimately show ?thesis
    by blast
qed

theorem efw_move_single_steps_witness:
  "move_slot (efw_move 3 stepping_wheel initial_state 3 6) = Some 6
   \<and> (\<exists>evs. move_trace (efw_move 3 stepping_wheel initial_state 3 6) = evs @ trace initial_state
             \<and> single_steps 3 evs)
   \<and> efw_commanded (move_trace (efw_move 3 stepping_wheel initial_state 3 6)) = [4, 5, 6]"
proof -
  have s: "move_slot (efw_move 3 stepping_wheel initial_state 3 6) = Some 6"
    by code_simp
  have c: "efw_commanded (move_trace (efw_move 3 stepping_wheel initial_state 3 6)) = [4, 5, 6]"
    by code_simp
  obtain r where r: "efw_move 3 stepping_wheel initial_state 3 6 = Some r"
    using s by (cases "efw_move 3 stepping_wheel initial_state 3 6") (auto simp: move_slot_def)
  have "\<exists>evs. trace (left_in r) = evs @ trace initial_state \<and> single_steps 3 evs"
    using efw_move_single_steps [of 3 stepping_wheel initial_state 3 6 r] r by blast
  then show ?thesis
    using s c by (simp add: move_trace_def r)
qed

section \<open>The retry window of one step\<close>








section \<open>The move loop around a step that does not settle\<close>








section \<open>A run with a step that takes more than 100 polls\<close>











end
